theory Spec2Isabelle
  imports Complex_Main "HOL-Library.Word" "HOL-Library.Sublist"
begin

section \<open>Tsunami: a chunked decoder for ustar archives (src/tsunami.ts)\<close>

text \<open>
  The file \<^verbatim>\<open>src/tsunami.ts\<close> holds two revisions of the module. The embedding below is
  of the first one (lines 1 to 465); the second revision (lines 466 to 1047) is not
  embedded.
\<close>

subsection \<open>JavaScript values\<close>

text \<open>
  An \<^verbatim>\<open>ArrayBuffer\<close> is a list of bytes. A JavaScript string is a list of UTF-16 code
  units; \<open>js\<close> writes an ASCII literal of the source as such a list. A JavaScript number
  is \<open>NaN\<close> or an integer: every number this program computes is one of the two, as long
  as it stays below \<open>2 ^ 53\<close> in magnitude (where doubles are exact), and \<open>-0\<close> is
  identified with \<open>0\<close>, which no operation used here tells apart.
\<close>

type_synonym byte = "8 word"
type_synonym ArrayBuffer = "byte list"
type_synonym jschar = "16 word"
type_synonym jsstring = "jschar list"

definition js :: "string \<Rightarrow> jsstring" where
  "js s = map of_char s"

datatype jsnum = NaN | Num int

subsection \<open>\<^verbatim>\<open>Number(string)\<close>, \<^verbatim>\<open>parseInt(string, 8)\<close> and \<^verbatim>\<open>decodeOctal\<close>\<close>

text \<open>
  \<^verbatim>\<open>isNaN(Number(value))\<close> holds exactly when \<^verbatim>\<open>value\<close>, with white space and line
  terminators trimmed at both ends, is neither empty nor a \<^verbatim>\<open>StrNumericLiteral\<close> of
  ECMA-262 (StringToNumber): an optionally signed decimal literal (\<^verbatim>\<open>Infinity\<close>, digits
  with an optional fraction and exponent) or an unsigned binary, octal or hexadecimal
  literal.
\<close>

definition isStrWhiteSpaceChar :: "jschar \<Rightarrow> bool" where
  "isStrWhiteSpaceChar c =
     (List.member [0x09, 0x0A, 0x0B, 0x0C, 0x0D, 0x20, 0xA0, 0x1680, 0x2028, 0x2029,
                   0x202F, 0x205F, 0x3000, 0xFEFF] c \<or> (0x2000 \<le> c \<and> c \<le> 0x200A))"

definition isDecimalDigit :: "jschar \<Rightarrow> bool" where
  "isDecimalDigit c = (0x30 \<le> c \<and> c \<le> 0x39)"

definition isOctalDigit :: "jschar \<Rightarrow> bool" where
  "isOctalDigit c = (0x30 \<le> c \<and> c \<le> 0x37)"

definition isBinaryDigit :: "jschar \<Rightarrow> bool" where
  "isBinaryDigit c = (c = 0x30 \<or> c = 0x31)"

definition isHexDigit :: "jschar \<Rightarrow> bool" where
  "isHexDigit c = (isDecimalDigit c \<or> (0x41 \<le> c \<and> c \<le> 0x46) \<or> (0x61 \<le> c \<and> c \<le> 0x66))"

definition trimStart :: "jsstring \<Rightarrow> jsstring" where
  "trimStart s = dropWhile isStrWhiteSpaceChar s"

definition trimString :: "jsstring \<Rightarrow> jsstring" where
  "trimString s = rev (dropWhile isStrWhiteSpaceChar (rev (trimStart s)))"

text \<open>\<^verbatim>\<open>SignedInteger\<close>: decimal digits with an optional sign.\<close>

definition isSignedInteger :: "jsstring \<Rightarrow> bool" where
  "isSignedInteger s =
     (case s of
        [] \<Rightarrow> False
      | c # r \<Rightarrow>
          (if c = 0x2B \<or> c = 0x2D then r \<noteq> [] \<and> list_all isDecimalDigit r
           else list_all isDecimalDigit s))"

text \<open>An optional \<^verbatim>\<open>ExponentPart\<close>: nothing, or \<^verbatim>\<open>e\<close>/\<^verbatim>\<open>E\<close> and a signed integer.\<close>

definition isExponentPartOpt :: "jsstring \<Rightarrow> bool" where
  "isExponentPartOpt s =
     (case s of
        [] \<Rightarrow> True
      | c # r \<Rightarrow> (c = 0x65 \<or> c = 0x45) \<and> isSignedInteger r)"

definition isStrUnsignedDecimalLiteral :: "jsstring \<Rightarrow> bool" where
  "isStrUnsignedDecimalLiteral s =
     (s = js ''Infinity'' \<or>
      (let ip = takeWhile isDecimalDigit s; r = dropWhile isDecimalDigit s
       in case r of
            [] \<Rightarrow> ip \<noteq> []
          | c # r' \<Rightarrow>
              (if c = 0x2E
               then (ip \<noteq> [] \<or> takeWhile isDecimalDigit r' \<noteq> []) \<and>
                    isExponentPartOpt (dropWhile isDecimalDigit r')
               else ip \<noteq> [] \<and> isExponentPartOpt r)))"

definition isStrDecimalLiteral :: "jsstring \<Rightarrow> bool" where
  "isStrDecimalLiteral s =
     (case s of
        [] \<Rightarrow> False
      | c # r \<Rightarrow>
          (if c = 0x2B \<or> c = 0x2D then isStrUnsignedDecimalLiteral r
           else isStrUnsignedDecimalLiteral s))"

definition isNonDecimalIntegerLiteral :: "jsstring \<Rightarrow> bool" where
  "isNonDecimalIntegerLiteral s =
     (case s of
        z # p # ds \<Rightarrow>
          z = 0x30 \<and> ds \<noteq> [] \<and>
          (((p = 0x62 \<or> p = 0x42) \<and> list_all isBinaryDigit ds) \<or>
           ((p = 0x6F \<or> p = 0x4F) \<and> list_all isOctalDigit ds) \<or>
           ((p = 0x78 \<or> p = 0x58) \<and> list_all isHexDigit ds))
      | _ \<Rightarrow> False)"

definition Number_isNaN :: "jsstring \<Rightarrow> bool" where
  "Number_isNaN s =
     (let t = trimString s
      in t \<noteq> [] \<and> \<not> isStrDecimalLiteral t \<and> \<not> isNonDecimalIntegerLiteral t)"

text \<open>
  \<^verbatim>\<open>parseInt(string, 8)\<close>: leading white space is skipped, an optional sign is read, and
  the longest run of octal digits that follows is the value; with no such digit the
  result is \<open>NaN\<close>. (With radix 8 no \<^verbatim>\<open>0x\<close> prefix is stripped.)
\<close>

definition octalValue :: "jsstring \<Rightarrow> int" where
  "octalValue ds = foldl (\<lambda>a c. 8 * a + (uint c - 48)) 0 ds"

definition parseInt8 :: "jsstring \<Rightarrow> jsnum" where
  "parseInt8 s =
     (let t = trimStart s;
          sign = (if t \<noteq> [] \<and> hd t = 0x2D then - 1 else 1);
          u = (if t \<noteq> [] \<and> (hd t = 0x2B \<or> hd t = 0x2D) then tl t else t);
          z = takeWhile isOctalDigit u
      in if z = [] then NaN else Num (sign * octalValue z))"

text \<open>Lines 66 to 74.\<close>

definition decodeOctal :: "jsstring \<Rightarrow> jsnum" where
  "decodeOctal v = (if \<not> Number_isNaN v then parseInt8 v else Num 0)"

subsection \<open>Values of either type, coercions and slices\<close>

text \<open>
  \<^verbatim>\<open>PaxHeader.applyHeader\<close> assigns to the fields of a \<^verbatim>\<open>TarFile\<close> by name, whatever the
  declared type of the field, and deletes \<^verbatim>\<open>prefix\<close>; so a field holds a string, a number
  or nothing. \<open>ToString\<close> and \<open>ToBoolean\<close> are the coercions of ECMA-262 on these values
  (numbers print in decimal, which is what JavaScript does below \<open>10 ^ 21\<close>).
\<close>

datatype jsval = JStr jsstring | JNum jsnum | JUndef

function decimalDigits :: "nat \<Rightarrow> jsstring" where
  "decimalDigits n =
     (if n < 10 then [of_nat (48 + n)]
      else decimalDigits (n div 10) @ [of_nat (48 + n mod 10)])"
  by pat_completeness auto
termination
  by (relation "measure id") auto

declare decimalDigits.simps [simp del]

definition Number_toString :: "jsnum \<Rightarrow> jsstring" where
  "Number_toString x =
     (case x of
        NaN \<Rightarrow> js ''NaN''
      | Num n \<Rightarrow> (if n < 0 then 0x2D # decimalDigits (nat (- n)) else decimalDigits (nat n)))"

definition ToString :: "jsval \<Rightarrow> jsstring" where
  "ToString v =
     (case v of JStr s \<Rightarrow> s | JNum x \<Rightarrow> Number_toString x | JUndef \<Rightarrow> js ''undefined'')"

definition ToBoolean :: "jsval \<Rightarrow> bool" where
  "ToBoolean v =
     (case v of JStr s \<Rightarrow> s \<noteq> [] | JNum x \<Rightarrow> x \<noteq> NaN \<and> x \<noteq> Num 0 | JUndef \<Rightarrow> False)"

definition ToIntegerOrInfinity :: "jsnum \<Rightarrow> int" where
  "ToIntegerOrInfinity x = (case x of NaN \<Rightarrow> 0 | Num n \<Rightarrow> n)"

text \<open>Addition, and the comparisons \<^verbatim>\<open>a < b\<close> and \<^verbatim>\<open>a > b\<close>; a comparison with \<open>NaN\<close> is false.\<close>

definition js_add :: "jsnum \<Rightarrow> jsnum \<Rightarrow> jsnum" where
  "js_add a b = (case (a, b) of (Num x, Num y) \<Rightarrow> Num (x + y) | _ \<Rightarrow> NaN)"

definition js_lt :: "jsnum \<Rightarrow> jsnum \<Rightarrow> bool" where
  "js_lt a b = (case (a, b) of (Num x, Num y) \<Rightarrow> x < y | _ \<Rightarrow> False)"

definition js_gt :: "jsnum \<Rightarrow> jsnum \<Rightarrow> bool" where
  "js_gt a b = js_lt b a"

text \<open>
  \<^verbatim>\<open>Blob.slice\<close>, \<^verbatim>\<open>ArrayBuffer.slice\<close> and \<^verbatim>\<open>TypedArray.subarray\<close> share one rule: a
  negative index counts from the end, both indices are clamped to the length, and an
  end before the start gives the empty range.
\<close>

definition relativeIndex :: "nat \<Rightarrow> int \<Rightarrow> nat" where
  "relativeIndex len i = (if i < 0 then nat (max (int len + i) 0) else min (nat i) len)"

definition js_slice :: "'a list \<Rightarrow> int \<Rightarrow> int \<Rightarrow> 'a list" where
  "js_slice xs b e =
     (let s = relativeIndex (length xs) b; t = relativeIndex (length xs) e
      in take (t - s) (drop s xs))"

text \<open>\<^verbatim>\<open>Array.prototype.indexOf\<close>: the first index of the element, or -1.\<close>

definition indexOf :: "'a list \<Rightarrow> 'a \<Rightarrow> int" where
  "indexOf xs x =
     (if List.member xs x then int (length (takeWhile (\<lambda>y. y \<noteq> x) xs)) else - 1)"

text \<open>\<^verbatim>\<open>String.prototype.includes\<close>: the text occurs somewhere in the string.\<close>

fun str_includes :: "jsstring \<Rightarrow> jsstring \<Rightarrow> bool" where
  "str_includes [] t = (t = [])"
| "str_includes (c # s) t = (prefix t (c # s) \<or> str_includes s t)"

subsection \<open>\<^verbatim>\<open>TextDecoder\<close>: UTF-8 to a string\<close>

text \<open>
  \<^verbatim>\<open>new TextDecoder().decode(bytes)\<close> is the UTF-8 decoder of the Encoding standard: a
  malformed sequence yields U+FFFD, the byte that ended it is read again, a leading byte
  order mark is dropped, and a code point beyond U+FFFF becomes a surrogate pair. The
  decoder's state is the code point so far, the bytes still needed and the bounds of
  the next continuation byte.
\<close>

type_synonym utf8_state = "nat \<times> nat \<times> byte \<times> byte"

definition utf8_start :: utf8_state where
  "utf8_start = (0, 0, 0x80, 0xBF)"

definition utf8_lead :: "byte \<Rightarrow> nat list \<times> utf8_state" where
  "utf8_lead b =
     (if b \<le> 0x7F then ([unat b], utf8_start)
      else if 0xC2 \<le> b \<and> b \<le> 0xDF then ([], (unat b - 0xC0, 1, 0x80, 0xBF))
      else if 0xE0 \<le> b \<and> b \<le> 0xEF
        then ([], (unat b - 0xE0, 2, if b = 0xE0 then 0xA0 else 0x80,
                   if b = 0xED then 0x9F else 0xBF))
      else if 0xF0 \<le> b \<and> b \<le> 0xF4
        then ([], (unat b - 0xF0, 3, if b = 0xF0 then 0x90 else 0x80,
                   if b = 0xF4 then 0x8F else 0xBF))
      else ([0xFFFD], utf8_start))"

fun utf8_run :: "utf8_state \<Rightarrow> byte list \<Rightarrow> nat list" where
  "utf8_run (cp, need, lo, hi) [] = (if need \<noteq> 0 then [0xFFFD] else [])"
| "utf8_run (cp, need, lo, hi) (b # bs) =
     (if need = 0 then (case utf8_lead b of (out, st) \<Rightarrow> out @ utf8_run st bs)
      else if b < lo \<or> hi < b
        then (case utf8_lead b of (out, st) \<Rightarrow> 0xFFFD # out @ utf8_run st bs)
      else if need = 1 then (cp * 64 + (unat b - 0x80)) # utf8_run utf8_start bs
      else utf8_run (cp * 64 + (unat b - 0x80), need - 1, 0x80, 0xBF) bs)"

definition utf16_units :: "nat \<Rightarrow> jsstring" where
  "utf16_units cp =
     (if cp < 0x10000 then [of_nat cp]
      else [of_nat (0xD800 + (cp - 0x10000) div 0x400),
            of_nat (0xDC00 + (cp - 0x10000) mod 0x400)])"

definition TextDecoder_decode :: "ArrayBuffer \<Rightarrow> jsstring" where
  "TextDecoder_decode bytes =
     (let cps = utf8_run utf8_start bytes;
          cps' = (case cps of [] \<Rightarrow> [] | c # r \<Rightarrow> if c = 0xFEFF then r else cps)
      in concat (map utf16_units cps'))"

subsection \<open>The data model (lines 28 to 57 and 321 to 341)\<close>

datatype error =
    NotUstar      \<comment> \<open>\<^verbatim>\<open>Error('file is not in ustar format')\<close>\<close>
  | InvalidPax    \<comment> \<open>\<^verbatim>\<open>Error('Invalid PAX header data format.')\<close>\<close>
  | RangeError    \<comment> \<open>a \<^verbatim>\<open>DataView\<close> read outside the buffer\<close>
  | TypeError     \<comment> \<open>a method call on a value that has no such method\<close>
  | Unmodelled    \<comment> \<open>not an error of the program: the embedding stops here (see \<open>untar_body\<close>)\<close>

record UncompressedFile =
  file_name :: jsval
  file_mode :: jsnum
  file_buffer :: ArrayBuffer

record TarFile =
  name :: jsval
  mode :: jsval
  uid :: jsval
  gid :: jsval
  size_f :: jsval
  paddedSize :: jsval
  mtime :: jsval
  checksum :: jsval
  type :: jsval
  linkname :: jsval
  ustarFormat :: jsval
  version :: jsval
  uname :: jsval
  gname :: jsval
  devmajor :: jsval
  devminor :: jsval
  prefix_f :: jsval

abbreviation (input) NAME_LENGTH :: nat where "NAME_LENGTH \<equiv> 100"
abbreviation (input) MODE_LENGTH :: nat where "MODE_LENGTH \<equiv> 8"
abbreviation (input) UID_LENGTH :: nat where "UID_LENGTH \<equiv> 8"
abbreviation (input) GID_LENGTH :: nat where "GID_LENGTH \<equiv> 8"
abbreviation (input) SIZE_LENGTH :: nat where "SIZE_LENGTH \<equiv> 12"
abbreviation (input) MTIME_LENGTH :: nat where "MTIME_LENGTH \<equiv> 12"
abbreviation (input) CHECKSUM_LENGTH :: nat where "CHECKSUM_LENGTH \<equiv> 8"
abbreviation (input) TYPE_LENGTH :: nat where "TYPE_LENGTH \<equiv> 1"
abbreviation (input) LINKNAME_LENGTH :: nat where "LINKNAME_LENGTH \<equiv> 100"
abbreviation (input) USTARFORMAT_LENGTH :: nat where "USTARFORMAT_LENGTH \<equiv> 6"
abbreviation (input) VERSION_LENGTH :: nat where "VERSION_LENGTH \<equiv> 2"
abbreviation (input) UNAME_LENGTH :: nat where "UNAME_LENGTH \<equiv> 32"
abbreviation (input) GNAME_LENGTH :: nat where "GNAME_LENGTH \<equiv> 32"
abbreviation (input) DEVMAJOR_LENGTH :: nat where "DEVMAJOR_LENGTH \<equiv> 8"
abbreviation (input) DEVMINOR_LENGTH :: nat where "DEVMINOR_LENGTH \<equiv> 8"
abbreviation (input) NAMEPREFIX_LENGTH :: nat where "NAMEPREFIX_LENGTH \<equiv> 155"
abbreviation (input) HEADER_SIZE :: int where "HEADER_SIZE \<equiv> 512"
abbreviation (input) CACHE_SIZE :: nat where "CACHE_SIZE \<equiv> 512 * 1024"

definition LONG_LINK_FILENAME :: jsstring where
  "LONG_LINK_FILENAME = js ''././@LongLink''"

text \<open>Lines 55 to 57. A name that is not a string differs from all three strings.\<close>

definition isValidName :: "jsval \<Rightarrow> bool" where
  "isValidName fileName =
     (fileName \<noteq> JStr (js '''') \<and> fileName \<noteq> JStr (js ''.'') \<and> fileName \<noteq> JStr (js ''./''))"

subsection \<open>\<^verbatim>\<open>UntarStream\<close> (lines 230 to 277)\<close>

record UntarStream =
  bufferView :: ArrayBuffer
  position :: int

text \<open>
  \<^verbatim>\<open>readString\<close> collects the bytes up to the first zero byte or \<^verbatim>\<open>charCount\<close> bytes,
  and moves on by \<^verbatim>\<open>charCount\<close>. \<^verbatim>\<open>getUint8\<close> raises a \<^verbatim>\<open>RangeError\<close> outside the
  buffer: that happens when the position is negative, or the bytes run out before a zero
  byte and before \<^verbatim>\<open>charCount\<close> of them were read.
\<close>

definition readString :: "nat \<Rightarrow> UntarStream \<Rightarrow> error + (jsstring \<times> UntarStream)" where
  "readString charCount stream =
     (let avail = drop (nat (position stream)) (bufferView stream);
          charCodes = takeWhile (\<lambda>b. b \<noteq> 0) (take charCount avail)
      in if 0 < charCount \<and>
            (position stream < 0 \<or>
             (length charCodes = length avail \<and> length avail < charCount))
         then Inl RangeError
         else Inr (map ucast charCodes,
                   stream\<lparr>position := position stream + int charCount\<rparr>))"

definition readBuffer :: "int \<Rightarrow> UntarStream \<Rightarrow> ArrayBuffer \<times> UntarStream" where
  "readBuffer byteCount stream =
     (js_slice (bufferView stream) (position stream) (position stream + byteCount),
      stream\<lparr>position := position stream + byteCount\<rparr>)"

definition ebind :: "error + 'a \<Rightarrow> ('a \<Rightarrow> error + 'b) \<Rightarrow> error + 'b" where
  "ebind m f = (case m of Inl e \<Rightarrow> Inl e | Inr x \<Rightarrow> f x)"

subsection \<open>\<^verbatim>\<open>PaxHeader\<close> (lines 143 to 228)\<close>

text \<open>
  A field of a \<^verbatim>\<open>PaxHeader\<close> is its name and its value; the header is the list of its
  fields.
\<close>

type_synonym PaxField = "jsstring \<times> jsval"
type_synonym PaxHeader = "PaxField list"

definition isLineTerminator :: "jschar \<Rightarrow> bool" where
  "isLineTerminator c = (c = 0x0A \<or> c = 0x0D \<or> c = 0x2028 \<or> c = 0x2029)"

text \<open>
  \<^verbatim>\<open>fieldText.match(/^\d+ ([^=]+)=(.*)\n$/)\<close>. The digits are the longest run of digits at
  the start and a space follows them; the first group cannot hold \<^verbatim>\<open>=\<close>, so it ends at
  the first \<^verbatim>\<open>=\<close> and is not empty; the second group cannot hold a line terminator,
  so it is all that follows up to the line feed that ends the text. The result is the
  two groups.
\<close>

definition paxFieldMatch :: "jsstring \<Rightarrow> (jsstring \<times> jsstring) option" where
  "paxFieldMatch fieldText =
     (let ds = takeWhile isDecimalDigit fieldText; r1 = dropWhile isDecimalDigit fieldText
      in if ds = [] then None
         else (case r1 of
                 [] \<Rightarrow> None
               | c # r2 \<Rightarrow>
                   (if c \<noteq> 0x20 then None
                    else (let k = takeWhile (\<lambda>x. x \<noteq> 0x3D) r2;
                              r3 = dropWhile (\<lambda>x. x \<noteq> 0x3D) r2
                          in if k = [] then None
                             else (case r3 of
                                     [] \<Rightarrow> None
                                   | e # r4 \<Rightarrow>
                                       (if r4 = [] then None
                                        else if last r4 \<noteq> 0x0A then None
                                        else if list_ex isLineTerminator (butlast r4) then None
                                        else Some (k, butlast r4)))))))"

definition decimalValue :: "jsstring \<Rightarrow> nat" where
  "decimalValue ds = foldl (\<lambda>a c. 10 * a + (unat c - 48)) 0 ds"

text \<open>
  Lines 176 to 189: the value of a field is the number when the text is digits only and
  the number is not 0, and the text otherwise.
\<close>

definition paxFieldValue :: "jsstring \<Rightarrow> jsval" where
  "paxFieldValue fieldValue =
     (let fieldNum =
            (if length fieldValue = 0 then 0
             else if list_all isDecimalDigit fieldValue then decimalValue fieldValue
             else 0)
      in if fieldNum \<noteq> 0 then JNum (Num (int fieldNum)) else JStr fieldValue)"

text \<open>
  Lines 163 to 193, one record. \<^verbatim>\<open>fieldLength\<close> is \<^verbatim>\<open>Number\<close> of the text before the first
  space (of all but the last byte when there is no space). When that text is not a run
  of digits, \<^verbatim>\<open>fieldText\<close> cannot match: it decodes a prefix of the same bytes, so its
  text before the first space is that of \<^verbatim>\<open>fieldLength\<close>, or it has no space at all. The
  embedding raises the error there without computing \<^verbatim>\<open>Number\<close>, whose value for other
  literals (a fraction, an exponent, a hexadecimal number) is not modelled.
\<close>

definition paxRecord :: "ArrayBuffer \<Rightarrow> error + (PaxField \<times> ArrayBuffer)" where
  "paxRecord bytes =
     (let lengthText = TextDecoder_decode (js_slice bytes 0 (indexOf bytes 0x20))
      in if lengthText = [] \<or> \<not> list_all isDecimalDigit lengthText then Inl InvalidPax
         else (let fieldLength = decimalValue lengthText;
                   fieldText = TextDecoder_decode (take fieldLength bytes)
               in case paxFieldMatch fieldText of
                    None \<Rightarrow> Inl InvalidPax
                  | Some (fieldName, fieldValue) \<Rightarrow>
                      Inr ((fieldName, paxFieldValue fieldValue), drop fieldLength bytes)))"

function PaxHeader_parse_loop :: "ArrayBuffer \<Rightarrow> PaxField list \<Rightarrow> error + PaxHeader" where
  "PaxHeader_parse_loop bytes flds =
     (if 0 < length bytes
      then (case paxRecord bytes of
              Inl e \<Rightarrow> Inl e
            | Inr (field, rest) \<Rightarrow> PaxHeader_parse_loop rest (flds @ [field]))
      else Inr flds)"
  by pat_completeness auto
termination
proof (relation "measure (\<lambda>(bytes, flds). length bytes)")
  show "wf (measure (\<lambda>(bytes, flds). length bytes))"
    by simp
next
  fix bytes :: ArrayBuffer and flds :: "PaxField list" and x2 field rest
  assume ne: "0 < length bytes" and rec: "paxRecord bytes = Inr x2" and x2: "(field, rest) = x2"
  define n where "n = decimalValue (TextDecoder_decode (js_slice bytes 0 (indexOf bytes 0x20)))"
  have dec0: "TextDecoder_decode [] = []"
    by (simp add: TextDecoder_decode_def utf8_start_def)
  have m: "paxFieldMatch (TextDecoder_decode (take n bytes)) \<noteq> None" and rest: "rest = drop n bytes"
    using rec x2 unfolding paxRecord_def n_def Let_def
    by (auto split: if_splits option.splits)
  have "n \<noteq> 0"
  proof
    assume "n = 0"
    then have "paxFieldMatch (TextDecoder_decode (take n bytes)) = None"
      by (simp add: dec0 paxFieldMatch_def)
    with m show False
      by simp
  qed
  with ne rest have "length rest < length bytes"
    by simp
  then show "((rest, flds @ [field]), (bytes, flds)) \<in> measure (\<lambda>(bytes, flds). length bytes)"
    by simp
qed

declare PaxHeader_parse_loop.simps [simp del]

definition PaxHeader_parse :: "ArrayBuffer \<Rightarrow> error + PaxHeader" where
  "PaxHeader_parse buffer = PaxHeader_parse_loop buffer []"

text \<open>
  Lines 197 to 227. \<^verbatim>\<open>file[fieldName]\<close> reads and writes the field of that name; a name
  that is no field of the object reads as \<^verbatim>\<open>undefined\<close>. (The optional \<^verbatim>\<open>buffer\<close> is not
  set before \<^verbatim>\<open>readNextFile\<close>, after the headers were applied, and is left out of the
  record.) A value parsed from a record is never \<^verbatim>\<open>null\<close>, so the first branch of the
  source's conditional is never taken.
\<close>

definition getField :: "jsstring \<Rightarrow> TarFile \<Rightarrow> jsval" where
  "getField k file =
     (if k = js ''name'' then name file
      else if k = js ''mode'' then mode file
      else if k = js ''uid'' then uid file
      else if k = js ''gid'' then gid file
      else if k = js ''size'' then size_f file
      else if k = js ''paddedSize'' then paddedSize file
      else if k = js ''mtime'' then mtime file
      else if k = js ''checksum'' then checksum file
      else if k = js ''type'' then type file
      else if k = js ''linkname'' then linkname file
      else if k = js ''ustarFormat'' then ustarFormat file
      else if k = js ''version'' then version file
      else if k = js ''uname'' then uname file
      else if k = js ''gname'' then gname file
      else if k = js ''devmajor'' then devmajor file
      else if k = js ''devminor'' then devminor file
      else if k = js ''prefix'' then prefix_f file
      else JUndef)"

definition setField :: "jsstring \<Rightarrow> jsval \<Rightarrow> TarFile \<Rightarrow> TarFile" where
  "setField k v file =
     (if k = js ''name'' then file\<lparr>name := v\<rparr>
      else if k = js ''mode'' then file\<lparr>mode := v\<rparr>
      else if k = js ''uid'' then file\<lparr>uid := v\<rparr>
      else if k = js ''gid'' then file\<lparr>gid := v\<rparr>
      else if k = js ''size'' then file\<lparr>size_f := v\<rparr>
      else if k = js ''paddedSize'' then file\<lparr>paddedSize := v\<rparr>
      else if k = js ''mtime'' then file\<lparr>mtime := v\<rparr>
      else if k = js ''checksum'' then file\<lparr>checksum := v\<rparr>
      else if k = js ''type'' then file\<lparr>type := v\<rparr>
      else if k = js ''linkname'' then file\<lparr>linkname := v\<rparr>
      else if k = js ''ustarFormat'' then file\<lparr>ustarFormat := v\<rparr>
      else if k = js ''version'' then file\<lparr>version := v\<rparr>
      else if k = js ''uname'' then file\<lparr>uname := v\<rparr>
      else if k = js ''gname'' then file\<lparr>gname := v\<rparr>
      else if k = js ''devmajor'' then file\<lparr>devmajor := v\<rparr>
      else if k = js ''devminor'' then file\<lparr>devminor := v\<rparr>
      else if k = js ''prefix'' then file\<lparr>prefix_f := v\<rparr>
      else file)"

definition applyField :: "TarFile \<Rightarrow> PaxField \<Rightarrow> TarFile" where
  "applyField file field =
     (let fieldValue = snd field;
          file1 = (if fst field = js ''path'' \<and> prefix_f file \<noteq> JUndef
                   then file\<lparr>prefix_f := JUndef\<rparr> else file);
          fieldName = (if fst field = js ''path'' then js ''name''
                       else if fst field = js ''linkpath'' then js ''linkname''
                       else fst field)
      in case getField fieldName file1 of
           JStr old \<Rightarrow> setField fieldName fieldValue file1
         | JNum old \<Rightarrow> setField fieldName fieldValue file1
         | JUndef \<Rightarrow> file1)"

definition applyHeader :: "PaxHeader \<Rightarrow> TarFile \<Rightarrow> TarFile" where
  "applyHeader flds file = foldl applyField file flds"

subsection \<open>\<^verbatim>\<open>makeTarFile\<close> (lines 76 to 141)\<close>

text \<open>
  A pattern of \<^verbatim>\<open>validFileTypes\<close> is used through \<^verbatim>\<open>test\<close> only and is modelled as the
  predicate it decides (a pattern without the \<^verbatim>\<open>g\<close> or \<^verbatim>\<open>y\<close> flag, whose \<^verbatim>\<open>test\<close> keeps no
  state). \<^verbatim>\<open>Math.ceil(size / HEADER_SIZE) * HEADER_SIZE\<close> is \<open>NaN\<close> for \<open>NaN\<close>.
\<close>

type_synonym RegExp = "jsstring \<Rightarrow> bool"

definition padTo :: "jsnum \<Rightarrow> jsnum" where
  "padTo sz = (case sz of NaN \<Rightarrow> NaN | Num n \<Rightarrow> Num (- ((- n) div HEADER_SIZE) * HEADER_SIZE))"

definition makeTarFile ::
  "UntarStream \<Rightarrow> RegExp list \<Rightarrow> jsstring option \<Rightarrow> PaxHeader option \<Rightarrow> PaxHeader option
   \<Rightarrow> error + TarFile" where
  "makeTarFile stream validFileTypes activeLongLink globalPaxHeader paxHeader =
     ebind (readString NAME_LENGTH stream) (\<lambda>(name0, s1).
     ebind (readString MODE_LENGTH s1) (\<lambda>(mode0, s2).
     ebind (readString UID_LENGTH s2) (\<lambda>(uid0, s3).
     ebind (readString GID_LENGTH s3) (\<lambda>(gid0, s4).
     ebind (readString SIZE_LENGTH s4) (\<lambda>(size0, s5).
       let size1 = decodeOctal size0;
           paddedSize1 = padTo size1;
           name1 = (case activeLongLink of
                      None \<Rightarrow> name0
                    | Some l \<Rightarrow> if l \<noteq> [] then l else name0);
           continueRead =
             (name1 = LONG_LINK_FILENAME \<or> str_includes name1 (js ''PaxHeader'') \<or>
              globalPaxHeader \<noteq> None \<or> paxHeader \<noteq> None \<or>
              list_ex (\<lambda>t. t name1) validFileTypes);
           file = \<lparr>name = JStr name1, mode = JStr mode0, uid = JNum (decodeOctal uid0),
                   gid = JNum (decodeOctal gid0), size_f = JNum size1,
                   paddedSize = JNum paddedSize1, mtime = JNum (Num 0),
                   checksum = JNum (Num 0), type = JStr [], linkname = JStr [],
                   ustarFormat = JStr [], version = JStr [], uname = JStr [],
                   gname = JStr [], devmajor = JNum (Num 0), devminor = JNum (Num 0),
                   prefix_f = JStr []\<rparr>
       in if continueRead
          then
            ebind (readString MTIME_LENGTH s5) (\<lambda>(mtime0, s6).
            ebind (readString CHECKSUM_LENGTH s6) (\<lambda>(checksum0, s7).
            ebind (readString TYPE_LENGTH s7) (\<lambda>(type0, s8).
            ebind (readString LINKNAME_LENGTH s8) (\<lambda>(linkname0, s9).
            ebind (readString USTARFORMAT_LENGTH s9) (\<lambda>(ustarFormat0, s10).
            ebind (readString VERSION_LENGTH s10) (\<lambda>(version0, s11).
            ebind (readString UNAME_LENGTH s11) (\<lambda>(uname0, s12).
            ebind (readString GNAME_LENGTH s12) (\<lambda>(gname0, s13).
            ebind (readString DEVMAJOR_LENGTH s13) (\<lambda>(devmajor0, s14).
            ebind (readString DEVMINOR_LENGTH s14) (\<lambda>(devminor0, s15).
            ebind (readString NAMEPREFIX_LENGTH s15) (\<lambda>(prefix0, s16).
              Inr (file\<lparr>mtime := JNum (decodeOctal mtime0),
                        checksum := JNum (decodeOctal checksum0),
                        type := JStr type0, linkname := JStr linkname0,
                        ustarFormat := JStr ustarFormat0, version := JStr version0,
                        uname := JStr uname0, gname := JStr gname0,
                        devmajor := JNum (decodeOctal devmajor0),
                        devminor := JNum (decodeOctal devminor0),
                        prefix_f := JStr prefix0\<rparr>))))))))))))
          else Inr file)))))"

subsection \<open>\<^verbatim>\<open>untarBuffer\<close> and \<^verbatim>\<open>UntarFileStream.readNextFile\<close> (lines 59 to 63 and 279 to 319)\<close>

text \<open>
  \<^verbatim>\<open>readNextFile\<close> raises unless \<^verbatim>\<open>ustarFormat\<close> contains \<^verbatim>\<open>ustar\<close> (a number has no
  \<^verbatim>\<open>indexOf\<close>: a \<^verbatim>\<open>TypeError\<close>), reads the whole buffer as the content, and joins a
  prefix that is not empty to the name. The position it then computes is dropped with
  the stream and is not modelled.
\<close>

definition readNextFile :: "ArrayBuffer \<Rightarrow> TarFile \<Rightarrow> error + UncompressedFile" where
  "readNextFile arrayBuffer file =
     (case ustarFormat file of
        JStr u \<Rightarrow>
          (if \<not> str_includes u (js ''ustar'') then Inl NotUstar
           else (let stream = \<lparr>bufferView = arrayBuffer, position = 0\<rparr>;
                     content = fst (readBuffer (int (length (bufferView stream))) stream);
                     name1 = (if ToBoolean (prefix_f file)
                              then JStr (ToString (prefix_f file) @ js ''/'' @ ToString (name file))
                              else name file)
                 in Inr \<lparr>file_name = name1, file_mode = parseInt8 (ToString (mode file)),
                         file_buffer = content\<rparr>))
      | _ \<Rightarrow> Inl TypeError)"

definition untarBuffer :: "ArrayBuffer \<Rightarrow> TarFile \<Rightarrow> error + UncompressedFile" where
  "untarBuffer arrayBuffer tarfile = readNextFile arrayBuffer tarfile"

subsection \<open>\<^verbatim>\<open>Tsunami\<close> (lines 343 to 465)\<close>

record Tsunami =
  validFileTypes :: "RegExp list"
  excludeInvalidFiles :: bool
  cacheSize :: nat
  files :: "UncompressedFile list"

text \<open>The constructor (lines 347 to 352), with its default arguments given explicitly.\<close>

definition new_Tsunami :: "RegExp list \<Rightarrow> bool \<Rightarrow> nat \<Rightarrow> Tsunami" where
  "new_Tsunami vft excl cs =
     \<lparr>validFileTypes = vft, excludeInvalidFiles = excl, cacheSize = cs, files = []\<rparr>"

text \<open>
  The state of \<^verbatim>\<open>untar\<close> between two iterations of its inner loop: the local variables
  that outlive an iteration, and \<^verbatim>\<open>this.files\<close>.
\<close>

record UntarState =
  activeLongLink :: "jsstring option"
  paxHeader :: "PaxHeader option"
  globalPaxHeader :: "PaxHeader option"
  header :: "TarFile option"
  out_files :: "UncompressedFile list"

text \<open>
  Lines 381 to 399: a header is read when none is pending; the long link and the local
  header are cleared once used.
\<close>

definition readHeader ::
  "Tsunami \<Rightarrow> ArrayBuffer \<Rightarrow> int \<Rightarrow> UntarState \<Rightarrow> error + (TarFile \<times> int \<times> UntarState)" where
  "readHeader this buffer cacheOffset st =
     (case header st of
        Some h \<Rightarrow> Inr (h, cacheOffset, st)
      | None \<Rightarrow>
          (case makeTarFile \<lparr>bufferView = buffer, position = cacheOffset\<rparr> (validFileTypes this)
                  (activeLongLink st) (globalPaxHeader st) (paxHeader st) of
             Inl e \<Rightarrow> Inl e
           | Inr h0 \<Rightarrow>
               (let h1 = (case globalPaxHeader st of None \<Rightarrow> h0 | Some g \<Rightarrow> applyHeader g h0);
                    h2 = (case paxHeader st of None \<Rightarrow> h1 | Some p \<Rightarrow> applyHeader p h1)
                in Inr (h2, cacheOffset + HEADER_SIZE,
                        st\<lparr>activeLongLink := None, paxHeader := None, header := Some h2\<rparr>))))"

text \<open>
  One iteration of the inner loop ends in \<^verbatim>\<open>continue\<close> (or the end of the body), in
  \<^verbatim>\<open>break\<close>, or in an exception; each carries the \<^verbatim>\<open>cacheOffset\<close> and the state reached.
\<close>

datatype step = Continue jsnum UntarState | Break jsnum UntarState | Throw error UntarState

text \<open>
  Lines 400 to 456, for a header whose \<^verbatim>\<open>size\<close> and \<^verbatim>\<open>paddedSize\<close> are numbers. (After
  the header was read it is not null, so the \<^verbatim>\<open>return\<close> of line 402 is never reached.)
\<close>

definition advance :: "int \<Rightarrow> jsnum \<Rightarrow> jsnum \<Rightarrow> jsnum" where
  "advance cacheOffset sz psz =
     (if js_gt sz (Num 0) \<and> sz \<noteq> NaN then js_add (Num cacheOffset) psz else Num cacheOffset)"

definition processEntry ::
  "Tsunami \<Rightarrow> ArrayBuffer \<Rightarrow> TarFile \<Rightarrow> jsnum \<Rightarrow> jsnum \<Rightarrow> int \<Rightarrow> UntarState \<Rightarrow> step" where
  "processEntry this buffer h sz psz cacheOffset st =
     (let isRegularFile = List.member [JStr (js ''''), JStr (js ''0''), JStr (js ''5'')] (type h);
          hasValidName = isValidName (name h);
          isValidType = list_ex (\<lambda>t. t (ToString (name h))) (validFileTypes this);
          next_offset = advance cacheOffset sz psz;
          cleared = st\<lparr>header := None\<rparr>
      in if isRegularFile \<and> hasValidName \<and> \<not> isValidType
         then Continue next_offset
                (if \<not> excludeInvalidFiles this
                 then cleared\<lparr>out_files := out_files st @
                        [\<lparr>file_name = name h, file_mode = parseInt8 (ToString (mode h)),
                          file_buffer = []\<rparr>]\<rparr>
                 else cleared)
         else if js_lt (Num (int (length buffer) - cacheOffset)) psz
         then Break (Num cacheOffset) st
         else if hasValidName
         then (let contentBuffer =
                     js_slice buffer cacheOffset (ToIntegerOrInfinity (js_add (Num cacheOffset) sz))
               in if type h = JStr (js ''g'')
                  then (case PaxHeader_parse contentBuffer of
                          Inl e \<Rightarrow> Throw e st
                        | Inr p \<Rightarrow> Continue next_offset (cleared\<lparr>globalPaxHeader := Some p\<rparr>))
                  else if type h = JStr (js ''x'')
                  then (case PaxHeader_parse contentBuffer of
                          Inl e \<Rightarrow> Throw e st
                        | Inr p \<Rightarrow> Continue next_offset (cleared\<lparr>paxHeader := Some p\<rparr>))
                  else if type h = JStr (js ''L'')
                  then (case untarBuffer contentBuffer h of
                          Inl e \<Rightarrow> Throw e st
                        | Inr file \<Rightarrow>
                            Continue next_offset
                              (cleared\<lparr>activeLongLink :=
                                 Some (TextDecoder_decode (js_slice (file_buffer file) 0 (- 1)))\<rparr>))
                  else if isValidType
                  then (case untarBuffer contentBuffer h of
                          Inl e \<Rightarrow> Throw e st
                        | Inr file \<Rightarrow> Continue next_offset (cleared\<lparr>out_files := out_files st @ [file]\<rparr>))
                  else Continue next_offset cleared)
         else Continue next_offset cleared)"

text \<open>
  The body of the inner loop. When an extended header has put a string where \<^verbatim>\<open>size\<close> or
  \<^verbatim>\<open>paddedSize\<close> was a number, the source goes on with string concatenation and with
  \<^verbatim>\<open>Number\<close> of arbitrary text; the embedding stops there with \<open>Unmodelled\<close>.
\<close>

definition untar_body :: "Tsunami \<Rightarrow> ArrayBuffer \<Rightarrow> int \<Rightarrow> UntarState \<Rightarrow> step" where
  "untar_body this buffer cacheOffset st =
     (case readHeader this buffer cacheOffset st of
        Inl e \<Rightarrow> Throw e st
      | Inr (h, cacheOffset1, st1) \<Rightarrow>
          (case (size_f h, paddedSize h) of
             (JNum sz, JNum psz) \<Rightarrow> processEntry this buffer h sz psz cacheOffset1 st1
           | _ \<Rightarrow> Throw Unmodelled st1))"

text \<open>
  The inner loop (lines 380 to 457). Its result is how it was left: the \<^verbatim>\<open>cacheOffset\<close>
  and the state at the loop's end, or an exception. A loop that does not end has no
  result (\<open>None\<close>).
\<close>

partial_function (option) untar_inner ::
  "Tsunami \<Rightarrow> ArrayBuffer \<Rightarrow> jsnum \<Rightarrow> UntarState \<Rightarrow> (error option \<times> jsnum \<times> UntarState) option" where
  "untar_inner this buffer cacheOffset st =
     (case cacheOffset of
        NaN \<Rightarrow> Some (None, cacheOffset, st)
      | Num off \<Rightarrow>
          (if HEADER_SIZE \<le> int (length buffer) - off
           then (case untar_body this buffer off st of
                   Continue cacheOffset1 st1 \<Rightarrow> untar_inner this buffer cacheOffset1 st1
                 | Break cacheOffset1 st1 \<Rightarrow> Some (None, cacheOffset1, st1)
                 | Throw e st1 \<Rightarrow> Some (Some e, cacheOffset, st1))
           else Some (None, cacheOffset, st)))"

text \<open>
  Lines 366 to 378: the next window is what was left of the last one, followed by up
  to \<^verbatim>\<open>cacheSize\<close> new bytes of the file.
\<close>

definition nextWindow :: "Tsunami \<Rightarrow> ArrayBuffer \<Rightarrow> int \<Rightarrow> ArrayBuffer \<Rightarrow> int \<times> ArrayBuffer" where
  "nextWindow this file fileOffset buffer =
     (let unusedCache = int (length buffer);
          blob = (if int (cacheSize this) \<le> int (length file) - fileOffset
                  then js_slice file (fileOffset - unusedCache) (fileOffset + int (cacheSize this))
                  else js_slice file (fileOffset - unusedCache) (int (length file)))
      in (fileOffset + (int (length blob) - unusedCache), blob))"

text \<open>Lines 458 to 462: what is carried over to the next window.\<close>

definition carryOver :: "int \<Rightarrow> ArrayBuffer \<Rightarrow> jsnum \<Rightarrow> int \<times> ArrayBuffer" where
  "carryOver fileOffset buffer cacheOffset =
     ((if js_gt cacheOffset (Num (int (length buffer)))
       then fileOffset + (ToIntegerOrInfinity cacheOffset - int (length buffer))
       else fileOffset),
      js_slice buffer (ToIntegerOrInfinity cacheOffset) (int (length buffer)))"

text \<open>
  The outer loop (lines 365 to 463). The result is the exception that ended the decoding,
  if any, and the files collected.
\<close>

partial_function (option) untar_outer ::
  "Tsunami \<Rightarrow> ArrayBuffer \<Rightarrow> int \<Rightarrow> ArrayBuffer \<Rightarrow> UntarState
   \<Rightarrow> (error option \<times> UncompressedFile list) option" where
  "untar_outer this file fileOffset buffer st =
     (if fileOffset < int (length file)
      then (case nextWindow this file fileOffset buffer of
              (fileOffset1, buffer1) \<Rightarrow>
                (case untar_inner this buffer1 (Num 0) st of
                   None \<Rightarrow> None
                 | Some (Some e, cacheOffset, st1) \<Rightarrow> Some (Some e, out_files st1)
                 | Some (None, cacheOffset, st1) \<Rightarrow>
                     (case carryOver fileOffset1 buffer1 cacheOffset of
                        (fileOffset2, buffer2) \<Rightarrow> untar_outer this file fileOffset2 buffer2 st1)))
      else Some (None, out_files st))"

text \<open>
  \<^verbatim>\<open>untar\<close> (lines 358 to 464) on an instance: the exception that rejected the promise,
  if any, and the instance with the files it now holds; \<open>None\<close> when the call never
  returns.
\<close>

definition initialState :: "UncompressedFile list \<Rightarrow> UntarState" where
  "initialState fs =
     \<lparr>activeLongLink = None, paxHeader = None, globalPaxHeader = None, header = None,
      out_files = fs\<rparr>"

definition untar :: "Tsunami \<Rightarrow> ArrayBuffer \<Rightarrow> (error option \<times> Tsunami) option" where
  "untar this file =
     map_option (\<lambda>(e, fs). (e, this\<lparr>files := fs\<rparr>))
       (untar_outer this file 0 [] (initialState (files this)))"

subsection \<open>A header block in closed form\<close>

text \<open>
  Auxiliary definitions for the proofs, not part of the program: the text of a field of
  a block (the bytes before the first zero byte, as \<^verbatim>\<open>readString\<close> returns them), and
  the \<^verbatim>\<open>TarFile\<close> that \<^verbatim>\<open>makeTarFile\<close> builds from a block of 512 bytes (lemma
  \<open>makeTarFile_block\<close> below).
\<close>

definition cstring :: "byte list \<Rightarrow> jsstring" where
  "cstring bs = map ucast (takeWhile (\<lambda>b. b \<noteq> 0) bs)"

definition chunk :: "ArrayBuffer \<Rightarrow> nat \<Rightarrow> nat \<Rightarrow> jsstring" where
  "chunk blk off n = cstring (take n (drop off blk))"

definition headerOf ::
  "ArrayBuffer \<Rightarrow> RegExp list \<Rightarrow> jsstring option \<Rightarrow> PaxHeader option \<Rightarrow> PaxHeader option \<Rightarrow> TarFile" where
  "headerOf blk vft ll g p =
     (let name1 = (case ll of None \<Rightarrow> chunk blk 0 100
                    | Some l \<Rightarrow> if l \<noteq> [] then l else chunk blk 0 100);
          continueRead =
             (name1 = LONG_LINK_FILENAME \<or> str_includes name1 (js ''PaxHeader'') \<or>
              g \<noteq> None \<or> p \<noteq> None \<or> list_ex (\<lambda>t. t name1) vft)
      in \<lparr>name = JStr name1, mode = JStr (chunk blk 100 8), uid = JNum (decodeOctal (chunk blk 108 8)),
          gid = JNum (decodeOctal (chunk blk 116 8)), size_f = JNum (decodeOctal (chunk blk 124 12)),
          paddedSize = JNum (padTo (decodeOctal (chunk blk 124 12))),
          mtime = JNum (if continueRead then decodeOctal (chunk blk 136 12) else Num 0),
          checksum = JNum (if continueRead then decodeOctal (chunk blk 148 8) else Num 0),
          type = JStr (if continueRead then chunk blk 156 1 else []),
          linkname = JStr (if continueRead then chunk blk 157 100 else []),
          ustarFormat = JStr (if continueRead then chunk blk 257 6 else []),
          version = JStr (if continueRead then chunk blk 263 2 else []),
          uname = JStr (if continueRead then chunk blk 265 32 else []),
          gname = JStr (if continueRead then chunk blk 297 32 else []),
          devmajor = JNum (if continueRead then decodeOctal (chunk blk 329 8) else Num 0),
          devminor = JNum (if continueRead then decodeOctal (chunk blk 337 8) else Num 0),
          prefix_f = JStr (if continueRead then chunk blk 345 155 else [])\<rparr>)"

text \<open>
  For the proofs about the files an instance already holds: a state, and the outcome of
  an iteration, with a list of files put before its own.
\<close>

definition prepend_files :: "UncompressedFile list \<Rightarrow> UntarState \<Rightarrow> UntarState" where
  "prepend_files pre st = st\<lparr>out_files := pre @ out_files st\<rparr>"


subsection \<open>Example archives\<close>

text \<open>
  Test data for the concrete claims: a field padded with zero bytes, a header block with
  the given name, size (in octal), type flag and format token (the other fields are
  fixed; the checksum is not computed, the decoder never reads it for verification),
  content padded to a multiple of 512 bytes, and the pattern \<^verbatim>\<open>/\.json$/\<close>.
\<close>

definition bytes :: "string \<Rightarrow> ArrayBuffer" where
  "bytes s = map of_char s"

definition field :: "string \<Rightarrow> nat \<Rightarrow> ArrayBuffer" where
  "field s n = bytes s @ replicate (n - length s) 0"

definition tar_header :: "string \<Rightarrow> string \<Rightarrow> string \<Rightarrow> string \<Rightarrow> ArrayBuffer" where
  "tar_header nm sz ty magic =
     field nm 100 @ field ''0000644'' 8 @ field ''0001750'' 8 @ field ''0001750'' 8 @
     field sz 12 @ field ''14371573442'' 12 @ field ''0000000'' 8 @ field ty 1 @ field '''' 100 @
     field magic 6 @ field ''00'' 2 @ field ''user'' 32 @ field ''group'' 32 @
     field ''0000000'' 8 @ field ''0000000'' 8 @ field '''' 155 @ replicate 12 0"

definition padded :: "string \<Rightarrow> ArrayBuffer" where
  "padded s = bytes s @ replicate ((512 - length s mod 512) mod 512) 0"

definition zero_block :: ArrayBuffer where
  "zero_block = replicate 512 0"

definition json :: RegExp where
  "json s = suffix (js ''.json'') s"

definition archive3 :: ArrayBuffer where
  "archive3 =
     tar_header ''a.json'' ''00000000012'' ''0'' ''ustar'' @ padded ''[1,2,3,45]'' @
     tar_header ''b.txt'' ''00000000005'' ''0'' ''ustar'' @ padded ''hello'' @
     tar_header ''c.json'' ''00000000000'' ''0'' ''ustar'' @ zero_block @ zero_block"

definition archive_badpax :: ArrayBuffer where
  "archive_badpax =
     tar_header ''a.json'' ''00000000012'' ''0'' ''ustar'' @ padded ''[1,2,3,45]'' @
     tar_header ''PaxHeader/c.json'' ''00000000013'' ''x'' ''ustar'' @ padded ''11 path=abc'' @
     tar_header ''c.json'' ''00000000000'' ''0'' ''ustar'' @ zero_block @ zero_block"

definition archive_globalpax :: ArrayBuffer where
  "archive_globalpax =
     tar_header ''pax_global_header'' ''00000000013'' ''g'' ''ustar'' @ padded ''11 path=abc'' @
     tar_header ''c.json'' ''00000000000'' ''0'' ''ustar'' @ zero_block @ zero_block"

definition archive_v7 :: ArrayBuffer where
  "archive_v7 =
     tar_header ''b.txt'' ''00000000005'' ''0'' '''' @ padded ''hello'' @ zero_block @ zero_block"

definition archive_v7_json :: ArrayBuffer where
  "archive_v7_json =
     tar_header ''a.json'' ''00000000012'' ''0'' '''' @ padded ''[1,2,3,45]'' @ zero_block @ zero_block"

definition archive_marker :: ArrayBuffer where
  "archive_marker =
     tar_header ''././@LongLink'' ''00000000007'' ''0'' ''ustar'' @ padded ''x.json'' @
     tar_header ''a.json'' ''00000000012'' ''0'' ''ustar'' @ padded ''[1,2,3,45]'' @
     zero_block @ zero_block"

definition archive_emptylink :: ArrayBuffer where
  "archive_emptylink =
     tar_header ''././@LongLink'' ''00000000001'' ''L'' ''ustar'' @ zero_block @
     tar_header ''a.json'' ''00000000012'' ''0'' ''ustar'' @ padded ''[1,2,3,45]'' @
     zero_block @ zero_block"

definition archive_longlink :: ArrayBuffer where
  "archive_longlink =
     tar_header ''././@LongLink'' ''00000000017'' ''L'' ''ustar'' @ padded ''long-name.json'' @
     tar_header ''short.json'' ''00000000012'' ''0'' ''ustar'' @ padded ''[1,2,3,45]'' @
     tar_header ''c.json'' ''00000000000'' ''0'' ''ustar'' @ zero_block @ zero_block"

definition archive_nosize :: ArrayBuffer where
  "archive_nosize = tar_header ''a.json'' '''' ''0'' ''ustar'' @ zero_block @ zero_block"

definition archive_negsize :: ArrayBuffer where
  "archive_negsize = tar_header ''a.json'' ''-1750'' ''0'' ''ustar'' @ zero_block @ zero_block"

subsection \<open>Predicates used to state the claims\<close>


text \<open>
  The characters that occur in the numeric literals \<^verbatim>\<open>Number\<close> accepts: the digits, the
  letters of hexadecimal digits (so also \<^verbatim>\<open>e\<close>, \<^verbatim>\<open>E\<close>, \<^verbatim>\<open>b\<close> and \<^verbatim>\<open>B\<close>), the letters of the
  prefixes and of \<^verbatim>\<open>Infinity\<close>, the signs and the point.
\<close>

definition numericChar :: "jschar \<Rightarrow> bool" where
  "numericChar c = (isHexDigit c \<or> List.member (js ''xXoO+-.Infinity'') c)"

subsection \<open>A reference: the whole file as one window\<close>

text \<open>
  Not part of the program: the inner loop of \<^verbatim>\<open>untar\<close> run on the whole file from a given
  offset, as a total function. It gives no result (\<open>None\<close>) when it meets a header whose
  padded size is not its size rounded up to a multiple of 512 or whose size is negative
  (\<open>sizesOk\<close>), or when an entry does not move the offset forward. An archive is well
  formed for an instance when this pass, from the start of the file, gives a result.
  The other three predicates state the invariant of the outer loop: an entry that is
  passed over without looking at the window (\<open>skipped\<close>), a header kept for the next
  window (\<open>pendingOk\<close>), and a window on which the inner loop stops at once (\<open>stuck\<close>).
\<close>

definition sizesOk :: "TarFile \<Rightarrow> bool" where
  "sizesOk h =
     (case (size_f h, paddedSize h) of
        (JNum sz, JNum psz) \<Rightarrow> psz = padTo sz \<and> \<not> js_lt sz (Num 0)
      | _ \<Rightarrow> False)"

function decodeWhole ::
  "Tsunami \<Rightarrow> ArrayBuffer \<Rightarrow> int \<Rightarrow> UntarState \<Rightarrow> (error option \<times> UntarState) option" where
  "decodeWhole this tarball pos st =
     (if pos < 0 then None
      else if int (length tarball) - pos < HEADER_SIZE then Some (None, st)
      else (case readHeader this tarball pos st of
              Inl e \<Rightarrow> None
            | Inr (h, pos1, st1) \<Rightarrow>
                if \<not> sizesOk h then None
                else (case untar_body this tarball pos st of
                        Continue c st' \<Rightarrow>
                          (case c of
                             NaN \<Rightarrow> None
                           | Num pos' \<Rightarrow>
                               if pos < pos' then decodeWhole this tarball pos' st' else None)
                      | Break c st' \<Rightarrow> Some (None, st')
                      | Throw e st' \<Rightarrow> Some (Some e, st'))))"
  by pat_completeness auto

termination
  by (relation "measure (\<lambda>(this, tarball, pos, st). nat (int (length tarball) - pos))") auto

declare decodeWhole.simps [simp del]




definition wellFormed :: "Tsunami \<Rightarrow> ArrayBuffer \<Rightarrow> bool" where
  "wellFormed this tarball = (decodeWhole this tarball 0 (initialState (files this)) \<noteq> None)"

section \<open>Properties\<close>

subsection \<open>The lenient octal decoder\<close>

lemma digit_not_space: "isDecimalDigit c \<Longrightarrow> \<not> isStrWhiteSpaceChar c"
  unfolding isDecimalDigit_def isStrWhiteSpaceChar_def
  by (auto simp: word_le_nat_alt)

lemma octal_is_decimal: "isOctalDigit c \<Longrightarrow> isDecimalDigit c"
  unfolding isDecimalDigit_def isOctalDigit_def
  by (auto simp: word_le_nat_alt)

lemma digit_not_sign: "isDecimalDigit c \<Longrightarrow> c \<noteq> 0x2B \<and> c \<noteq> 0x2D \<and> c \<noteq> 0x2E"
  unfolding isDecimalDigit_def
  by (auto simp: word_le_nat_alt)

lemma trimStart_no_space:
  assumes "s \<noteq> []" and "\<not> isStrWhiteSpaceChar (hd s)"
  shows "trimStart s = s"
  using assms by (cases s) (simp_all add: trimStart_def)

lemma trimString_digits:
  assumes "s \<noteq> []" and "list_all isDecimalDigit s"
  shows "trimString s = s"
proof -
  have h: "\<not> isStrWhiteSpaceChar (hd s)"
    using assms by (cases s) (auto dest: digit_not_space)
  have l: "\<not> isStrWhiteSpaceChar (last s)"
    using assms by (auto simp: list_all_iff dest: digit_not_space)
  have "rev s \<noteq> []" "\<not> isStrWhiteSpaceChar (hd (rev s))"
    using assms(1) l by (simp_all add: hd_rev)
  then have "dropWhile isStrWhiteSpaceChar (rev s) = rev s"
    by (cases "rev s") simp_all
  then show ?thesis
    using assms(1) h by (simp add: trimString_def trimStart_no_space)
qed

lemma digits_not_NaN:
  assumes "s \<noteq> []" and "list_all isDecimalDigit s"
  shows "\<not> Number_isNaN s"
proof -
  obtain c r where s: "s = c # r"
    using assms(1) by (cases s) auto
  have nosign: "c \<noteq> 0x2B" "c \<noteq> 0x2D"
    using assms(2) s digit_not_sign [of c] by simp_all
  have tw: "takeWhile isDecimalDigit s = s" "dropWhile isDecimalDigit s = []"
    using assms(2) by (simp_all add: list_all_iff)
  have "isStrUnsignedDecimalLiteral s"
    unfolding isStrUnsignedDecimalLiteral_def tw using assms(1) by simp
  then have "isStrDecimalLiteral s"
    using nosign s by (simp add: isStrDecimalLiteral_def)
  then show ?thesis
    using assms by (simp add: Number_isNaN_def trimString_digits)
qed

lemma parseInt8_octal_digits:
  assumes "s \<noteq> []" and "list_all isOctalDigit s"
  shows "parseInt8 s = Num (octalValue s)"
proof -
  obtain c r where s: "s = c # r"
    using assms(1) by (cases s) auto
  have dec: "isDecimalDigit c"
    using assms(2) s by (simp add: octal_is_decimal)
  have h: "\<not> isStrWhiteSpaceChar c" "c \<noteq> 0x2B" "c \<noteq> 0x2D"
    using dec digit_not_space [of c] digit_not_sign [of c] by simp_all
  have "takeWhile isOctalDigit s = s"
    using assms(2) by (simp add: list_all_iff)
  moreover have "trimStart s = s"
    using h s by (simp add: trimStart_def)
  ultimately show ?thesis
    using h s by (simp add: parseInt8_def)
qed

lemma parseInt8_leading_non_octal:
  assumes "isDecimalDigit c" and "\<not> isOctalDigit c"
  shows "parseInt8 (c # r) = NaN"
proof -
  have "\<not> isStrWhiteSpaceChar c" "c \<noteq> 0x2B" "c \<noteq> 0x2D"
    using assms(1) digit_not_space [of c] digit_not_sign [of c] by simp_all
  then show ?thesis
    using assms(2) by (simp add: parseInt8_def trimStart_def)
qed

lemma parseInt8_blank:
  assumes "list_all isStrWhiteSpaceChar s"
  shows "parseInt8 s = NaN"
proof -
  have "trimStart s = []"
    using assms by (simp add: trimStart_def list_all_iff)
  then show ?thesis
    by (simp add: parseInt8_def)
qed

lemma blank_not_NaN:
  assumes "list_all isStrWhiteSpaceChar s"
  shows "\<not> Number_isNaN s"
proof -
  have "trimStart s = []"
    using assms by (simp add: trimStart_def list_all_iff)
  then show ?thesis
    by (simp add: Number_isNaN_def trimString_def)
qed

lemma octalValue_snoc: "octalValue (ds @ [c]) = 8 * octalValue ds + (uint c - 48)"
  by (simp add: octalValue_def)

lemma octalValue_nonneg: "list_all isOctalDigit ds \<Longrightarrow> 0 \<le> octalValue ds"
proof (induction ds rule: rev_induct)
  case Nil
  then show ?case by (simp add: octalValue_def)
next
  case (snoc c ds)
  then have "0 \<le> octalValue ds" and "0x30 \<le> c"
    by (simp_all add: isOctalDigit_def)
  moreover from \<open>0x30 \<le> c\<close> have "48 \<le> uint c"
    by (simp add: word_le_def)
  ultimately show ?case
    by (simp add: octalValue_snoc)
qed

lemma mem_dropWhile: "x \<in> set xs \<Longrightarrow> \<not> P x \<Longrightarrow> x \<in> set (dropWhile P xs)"
  by (induction xs) auto

lemma mem_trimString:
  assumes "c \<in> set s" and "\<not> isStrWhiteSpaceChar c"
  shows "c \<in> set (trimString s)"
proof -
  have "c \<in> set (rev (trimStart s))"
    using assms by (simp add: trimStart_def mem_dropWhile)
  then have "c \<in> set (dropWhile isStrWhiteSpaceChar (rev (trimStart s)))"
    using assms(2) by (rule mem_dropWhile)
  then show ?thesis
    by (simp add: trimString_def)
qed

lemma digit_numericChar: "isDecimalDigit c \<Longrightarrow> numericChar c"
  by (simp add: numericChar_def isHexDigit_def)

lemma digits_numericChar: "\<forall>c\<in>set (takeWhile isDecimalDigit s). numericChar c"
  by (auto dest: set_takeWhileD digit_numericChar)

lemma sign_numericChar: "c = 0x2B \<or> c = 0x2D \<or> c = 0x2E \<or> c = 0x65 \<or> c = 0x45 \<Longrightarrow> numericChar c"
  by (auto simp: numericChar_def js_def List.member_iff isHexDigit_def isDecimalDigit_def)

lemma isSignedInteger_chars:
  assumes "isSignedInteger s"
  shows "\<forall>c\<in>set s. numericChar c"
  using assms
  by (cases s) (auto simp: isSignedInteger_def list_all_iff digit_numericChar sign_numericChar
      split: if_splits)

lemma isExponentPartOpt_chars:
  assumes "isExponentPartOpt s"
  shows "\<forall>c\<in>set s. numericChar c"
  using assms
  by (cases s) (auto simp: isExponentPartOpt_def sign_numericChar dest: isSignedInteger_chars)

lemma split_digits: "set s = set (takeWhile isDecimalDigit s) \<union> set (dropWhile isDecimalDigit s)"
  by (metis set_append takeWhile_dropWhile_id)

lemma isStrUnsignedDecimalLiteral_chars:
  assumes "isStrUnsignedDecimalLiteral s"
  shows "\<forall>c\<in>set s. numericChar c"
proof (cases "s = js ''Infinity''")
  case True
  then show ?thesis
    by (simp add: numericChar_def js_def List.member_iff)
next
  case False
  define r where "r = dropWhile isDecimalDigit s"
  have s: "set s = set (takeWhile isDecimalDigit s) \<union> set r"
    unfolding r_def by (rule split_digits)
  have "\<forall>c\<in>set r. numericChar c"
  proof (cases r)
    case Nil
    then show ?thesis by simp
  next
    case (Cons c r')
    show ?thesis
    proof (cases "c = 0x2E")
      case True
      then have "isExponentPartOpt (dropWhile isDecimalDigit r')"
        using assms False Cons
        by (simp add: isStrUnsignedDecimalLiteral_def r_def [symmetric] Let_def)
      then have "\<forall>c\<in>set (dropWhile isDecimalDigit r'). numericChar c"
        by (rule isExponentPartOpt_chars)
      then have "\<forall>c\<in>set r'. numericChar c"
        using split_digits [of r'] digits_numericChar [of r'] by auto
      then show ?thesis
        using Cons True by (simp add: sign_numericChar)
    next
      case ne: False
      then have "isExponentPartOpt r"
        using assms False Cons
        by (simp add: isStrUnsignedDecimalLiteral_def r_def [symmetric] Let_def)
      then show ?thesis
        by (rule isExponentPartOpt_chars)
    qed
  qed
  then show ?thesis
    using s digits_numericChar [of s] by auto
qed

lemma isStrDecimalLiteral_chars:
  assumes "isStrDecimalLiteral s"
  shows "\<forall>c\<in>set s. numericChar c"
  using assms
  by (cases s)
    (auto simp: isStrDecimalLiteral_def sign_numericChar split: if_splits
      dest: isStrUnsignedDecimalLiteral_chars)

lemma hexDigit_numericChar: "isHexDigit c \<Longrightarrow> numericChar c"
  by (simp add: numericChar_def)

lemma binaryDigit_hex: "isBinaryDigit c \<Longrightarrow> isHexDigit c"
  by (auto simp: isBinaryDigit_def isHexDigit_def isDecimalDigit_def)

lemma octalDigit_hex: "isOctalDigit c \<Longrightarrow> isHexDigit c"
  by (simp add: isHexDigit_def octal_is_decimal)

lemma isNonDecimalIntegerLiteral_chars:
  assumes "isNonDecimalIntegerLiteral s"
  shows "\<forall>c\<in>set s. numericChar c"
proof -
  obtain z p ds where s: "s = z # p # ds"
    using assms by (cases s; cases "tl s") (auto simp: isNonDecimalIntegerLiteral_def)
  have z: "z = 0x30" and p: "List.member (js ''bBoOxX'') p" and ds: "list_all isHexDigit ds"
    using assms s
    by (auto simp: isNonDecimalIntegerLiteral_def js_def List.member_iff list_all_iff
        dest: binaryDigit_hex octalDigit_hex)
  have "numericChar z"
    using z by (simp add: numericChar_def isHexDigit_def isDecimalDigit_def)
  moreover have "numericChar p"
    using p by (auto simp: numericChar_def js_def List.member_iff isHexDigit_def isDecimalDigit_def)
  ultimately show ?thesis
    using s ds by (auto simp: list_all_iff hexDigit_numericChar)
qed

lemma foreign_char_NaN:
  assumes "c \<in> set s" and "\<not> isStrWhiteSpaceChar c" and "\<not> numericChar c"
  shows "Number_isNaN s"
proof -
  have m: "c \<in> set (trimString s)"
    using assms(1,2) by (rule mem_trimString)
  then have "trimString s \<noteq> []"
    by auto
  moreover have "\<not> isStrDecimalLiteral (trimString s)"
    using m assms(3) isStrDecimalLiteral_chars by blast
  moreover have "\<not> isNonDecimalIntegerLiteral (trimString s)"
    using m assms(3) isNonDecimalIntegerLiteral_chars by blast
  ultimately show ?thesis
    by (simp add: Number_isNaN_def)
qed

lemma octalValue_bound:
  assumes "list_all isOctalDigit ds"
  shows "octalValue ds < 8 ^ length ds"
  using assms
proof (induction ds rule: rev_induct)
  case Nil
  then show ?case by (simp add: octalValue_def)
next
  case (snoc c ds)
  then have ih: "octalValue ds < 8 ^ length ds" and c: "c \<le> 0x37"
    by (simp_all add: isOctalDigit_def)
  from c have "uint c \<le> 55"
    by (simp add: word_le_def)
  then have "8 * octalValue ds + (uint c - 48) < 8 * 8 ^ length ds"
    using ih by linarith
  then show ?case
    by (simp add: octalValue_snoc)
qed

lemma octalValue_field:
  assumes "list_all isOctalDigit ds" and "length ds \<le> 12"
  shows "octalValue ds < 8 ^ 12"
proof -
  have "(8 :: int) ^ length ds \<le> 8 ^ 12"
    using assms(2) by (intro power_increasing) simp_all
  then show ?thesis
    using octalValue_bound [OF assms(1)] by linarith
qed

lemma parseInt8_leading_octal:
  assumes "ds \<noteq> []" and "list_all isOctalDigit ds" and "\<not> isOctalDigit c"
  shows "parseInt8 (ds @ c # r) = Num (octalValue ds)"
proof -
  obtain d ds' where ds: "ds = d # ds'"
    using assms(1) by (cases ds) auto
  have dec: "isDecimalDigit d"
    using assms(2) ds by (simp add: octal_is_decimal)
  have h: "\<not> isStrWhiteSpaceChar d" "d \<noteq> 0x2B" "d \<noteq> 0x2D"
    using dec digit_not_space [of d] digit_not_sign [of d] by simp_all
  have "takeWhile isOctalDigit (ds @ c # r) = ds"
    using assms(2,3) by (simp add: list_all_iff takeWhile_append2)
  moreover have "trimStart (ds @ c # r) = ds @ c # r"
    using h ds by (simp add: trimStart_def)
  ultimately show ?thesis
    using h ds by (simp add: parseInt8_def)
qed

text \<open>
  C4 (as stated, refuted): the decoder does not return 0 for every text that is not
  valid octal. The empty text, and text whose first digit is 8 or 9, pass the
  \<^verbatim>\<open>isNaN(Number(value))\<close> guard, and \<^verbatim>\<open>parseInt(value, 8)\<close> then yields \<open>NaN\<close>; a
  digit 8 or 9 further on only ends the octal digits that are read.
\<close>

theorem decodeOctal_not_always_zero:
  "decodeOctal (js '''') = NaN \<and> decodeOctal (js ''8'') = NaN \<and> decodeOctal (js ''19'') = Num 1"
proof -
  have "decodeOctal (js '''') = NaN"
    by (simp add: decodeOctal_def Number_isNaN_def parseInt8_def trimString_def trimStart_def js_def)
  moreover have "decodeOctal (js ''8'') = NaN"
    using digits_not_NaN [of "js ''8''"] parseInt8_leading_non_octal [of "0x38" "[]"]
    by (simp add: decodeOctal_def js_def isDecimalDigit_def isOctalDigit_def)
  moreover have "decodeOctal (js ''19'') = Num 1"
    using digits_not_NaN [of "js ''19''"]
    by (simp add: decodeOctal_def js_def isDecimalDigit_def isOctalDigit_def parseInt8_def
        trimStart_def isStrWhiteSpaceChar_def octalValue_def)
  ultimately show ?thesis by simp
qed

text \<open>
  C4 (amended): \<open>decodeOctal\<close> is a total function into the numbers, so it never raises.
  It returns 0 for every text that \<^verbatim>\<open>Number\<close> rejects (for which \<^verbatim>\<open>Number(value)\<close> is
  \<open>NaN\<close>); this is so whenever the text holds a character that is neither white space
  nor one that occurs in a numeric literal. For a header field, which has at most 12
  characters: a non-empty text of octal digits gives its octal value, and octal digits
  followed by a digit 8 or 9 and further decimal digits give the value of the octal
  digits before it. For text that is empty or only white space, and for decimal digits
  starting with 8 or 9, it returns \<open>NaN\<close>, not 0.
\<close>

theorem decodeOctal_lenient:
  "(Number_isNaN s \<longrightarrow> decodeOctal s = Num 0) \<and>
   ((\<exists>c\<in>set s. \<not> isStrWhiteSpaceChar c \<and> \<not> numericChar c) \<longrightarrow> decodeOctal s = Num 0) \<and>
   (s \<noteq> [] \<and> list_all isOctalDigit s \<and> length s \<le> 12 \<longrightarrow>
      decodeOctal s = Num (octalValue s) \<and> 0 \<le> octalValue s \<and> octalValue s < 8 ^ 12) \<and>
   (ds \<noteq> [] \<and> list_all isOctalDigit ds \<and> isDecimalDigit c \<and> \<not> isOctalDigit c \<and>
    list_all isDecimalDigit r \<and> length (ds @ c # r) \<le> 12 \<longrightarrow>
      decodeOctal (ds @ c # r) = Num (octalValue ds) \<and> 0 \<le> octalValue ds \<and> octalValue ds < 8 ^ 12) \<and>
   (list_all isStrWhiteSpaceChar s \<longrightarrow> decodeOctal s = NaN) \<and>
   (s \<noteq> [] \<and> list_all isDecimalDigit s \<and> \<not> isOctalDigit (hd s) \<longrightarrow> decodeOctal s = NaN)"
proof (intro conjI impI)
  assume "Number_isNaN s"
  then show "decodeOctal s = Num 0"
    by (simp add: decodeOctal_def)
next
  assume "\<exists>c\<in>set s. \<not> isStrWhiteSpaceChar c \<and> \<not> numericChar c"
  then have "Number_isNaN s"
    using foreign_char_NaN by blast
  then show "decodeOctal s = Num 0"
    by (simp add: decodeOctal_def)
next
  assume a: "s \<noteq> [] \<and> list_all isOctalDigit s \<and> length s \<le> 12"
  then have "list_all isDecimalDigit s"
    by (auto simp: list_all_iff dest: octal_is_decimal)
  with a have "\<not> Number_isNaN s"
    by (simp add: digits_not_NaN)
  with a show "decodeOctal s = Num (octalValue s)"
    by (simp add: decodeOctal_def parseInt8_octal_digits)
  show "0 \<le> octalValue s"
    using a by (simp add: octalValue_nonneg)
  show "octalValue s < 8 ^ 12"
    using a octalValue_field by blast
next
  assume a: "ds \<noteq> [] \<and> list_all isOctalDigit ds \<and> isDecimalDigit c \<and> \<not> isOctalDigit c \<and>
    list_all isDecimalDigit r \<and> length (ds @ c # r) \<le> 12"
  then have "list_all isDecimalDigit (ds @ c # r)"
    by (auto simp: list_all_iff dest: octal_is_decimal)
  then have "\<not> Number_isNaN (ds @ c # r)"
    by (simp add: digits_not_NaN)
  then show "decodeOctal (ds @ c # r) = Num (octalValue ds)"
    using a by (simp add: decodeOctal_def parseInt8_leading_octal)
  show "0 \<le> octalValue ds"
    using a by (simp add: octalValue_nonneg)
  have "length ds \<le> 12"
    using a by simp
  then show "octalValue ds < 8 ^ 12"
    using a octalValue_field by blast
next
  assume "list_all isStrWhiteSpaceChar s"
  then show "decodeOctal s = NaN"
    by (simp add: decodeOctal_def blank_not_NaN parseInt8_blank)
next
  assume a: "s \<noteq> [] \<and> list_all isDecimalDigit s \<and> \<not> isOctalDigit (hd s)"
  then obtain c r where s: "s = c # r"
    by (cases s) auto
  with a have "parseInt8 s = NaN"
    using parseInt8_leading_non_octal [of c r] by simp
  with a show "decodeOctal s = NaN"
    by (simp add: decodeOctal_def digits_not_NaN)
qed

theorem decodeOctal_lenient_witness:
  "Number_isNaN (js ''abc'') \<and>
   (\<exists>c\<in>set (js ''12z''). \<not> isStrWhiteSpaceChar c \<and> \<not> numericChar c) \<and>
   decodeOctal (js ''abc'') = Num 0 \<and> decodeOctal (js ''12z'') = Num 0 \<and>
   js ''0000644'' \<noteq> [] \<and> list_all isOctalDigit (js ''0000644'') \<and> length (js ''0000644'') \<le> 12 \<and>
   decodeOctal (js ''0000644'') = Num 420 \<and>
   js ''012'' \<noteq> [] \<and> list_all isOctalDigit (js ''012'') \<and> isDecimalDigit 0x39 \<and> \<not> isOctalDigit 0x39 \<and>
   list_all isDecimalDigit (js ''75'') \<and> length (js ''012'' @ 0x39 # js ''75'') \<le> 12 \<and>
   decodeOctal (js ''012975'') = Num 10 \<and>
   list_all isStrWhiteSpaceChar (js '' '') \<and> decodeOctal (js '' '') = NaN \<and>
   list_all isDecimalDigit (js ''9'') \<and> \<not> isOctalDigit (hd (js ''9'')) \<and>
   decodeOctal (js ''9'') = NaN"
proof -
  have a: "Number_isNaN (js ''abc'')"
    by (simp add: Number_isNaN_def trimString_def trimStart_def isStrDecimalLiteral_def
        isStrUnsignedDecimalLiteral_def isStrWhiteSpaceChar_def isDecimalDigit_def
        isNonDecimalIntegerLiteral_def isExponentPartOpt_def js_def)
  have a2: "\<exists>c\<in>set (js ''12z''). \<not> isStrWhiteSpaceChar c \<and> \<not> numericChar c"
    by (simp add: js_def isStrWhiteSpaceChar_def numericChar_def isHexDigit_def isDecimalDigit_def
        List.member_iff)
  have b: "js ''0000644'' \<noteq> [] \<and> list_all isOctalDigit (js ''0000644'') \<and> length (js ''0000644'') \<le> 12"
    by (simp add: js_def isOctalDigit_def)
  have v: "octalValue (js ''0000644'') = 420" "octalValue (js ''012'') = 10"
    by (simp_all add: octalValue_def js_def)
  have b2: "js ''012'' \<noteq> [] \<and> list_all isOctalDigit (js ''012'') \<and> isDecimalDigit 0x39 \<and>
      \<not> isOctalDigit 0x39 \<and> list_all isDecimalDigit (js ''75'') \<and> length (js ''012'' @ 0x39 # js ''75'') \<le> 12"
    by (simp add: js_def isOctalDigit_def isDecimalDigit_def)
  have e: "js ''012'' @ 0x39 # js ''75'' = js ''012975''"
    by (simp add: js_def)
  have c: "list_all isStrWhiteSpaceChar (js '' '')"
    by (simp add: js_def isStrWhiteSpaceChar_def)
  have d: "js ''9'' \<noteq> [] \<and> list_all isDecimalDigit (js ''9'') \<and> \<not> isOctalDigit (hd (js ''9''))"
    by (simp add: js_def isOctalDigit_def isDecimalDigit_def)
  note i1 = decodeOctal_lenient [where s = "js ''abc''", THEN conjunct1]
  note i2 = decodeOctal_lenient [where s = "js ''12z''", THEN conjunct2, THEN conjunct1]
  note i3 = decodeOctal_lenient [where s = "js ''0000644''", THEN conjunct2, THEN conjunct2, THEN conjunct1]
  note i4 = decodeOctal_lenient [where ds = "js ''012''" and c = "0x39" and r = "js ''75''",
      THEN conjunct2, THEN conjunct2, THEN conjunct2, THEN conjunct1]
  note i5 = decodeOctal_lenient [where s = "js '' ''", THEN conjunct2, THEN conjunct2, THEN conjunct2,
      THEN conjunct2, THEN conjunct1]
  note i6 = decodeOctal_lenient [where s = "js ''9''", THEN conjunct2, THEN conjunct2, THEN conjunct2,
      THEN conjunct2, THEN conjunct2]
  have "decodeOctal (js ''abc'') = Num 0" "decodeOctal (js ''12z'') = Num 0"
      "decodeOctal (js ''0000644'') = Num 420" "decodeOctal (js ''012975'') = Num 10"
      "decodeOctal (js '' '') = NaN" "decodeOctal (js ''9'') = NaN"
    using i1 a i2 a2 i3 b v i4 b2 e i5 c i6 d by simp_all
  then show ?thesis
    using a a2 b b2 c d by simp
qed

subsection \<open>Reading a header block\<close>

lemma readString_ok:
  assumes "0 \<le> pos" and "nat pos + n \<le> length buf"
  shows "readString n \<lparr>bufferView = buf, position = pos\<rparr> =
         Inr (chunk buf (nat pos) n, \<lparr>bufferView = buf, position = pos + int n\<rparr>)"
proof -
  have "n \<le> length (drop (nat pos) buf)"
    using assms by simp
  then have "\<not> (0 < n \<and> length (takeWhile (\<lambda>b. b \<noteq> 0) (take n (drop (nat pos) buf))) = length (drop (nat pos) buf)
      \<and> length (drop (nat pos) buf) < n)"
    by linarith
  then show ?thesis
    using assms(1) by (auto simp add: readString_def chunk_def cstring_def Let_def)
qed

lemma chunk_block:
  assumes "k + n \<le> 512"
  shows "chunk (take 512 (drop off buf)) k n = chunk buf (off + k) n"
proof -
  have "take n (drop k (take 512 (drop off buf))) = take n (drop (off + k) buf)"
    using assms by (simp add: drop_take min_def add.commute)
  then show ?thesis
    by (simp add: chunk_def)
qed

lemma makeTarFile_block:
  assumes "0 \<le> off" and "nat off + 512 \<le> length buf"
  shows "makeTarFile \<lparr>bufferView = buf, position = off\<rparr> vft ll g p =
         Inr (headerOf (take 512 (drop (nat off) buf)) vft ll g p)"
proof -
  have r: "\<And>k n. k + n \<le> 512 \<Longrightarrow>
      readString n \<lparr>bufferView = buf, position = off + int k\<rparr> =
      Inr (chunk (take 512 (drop (nat off) buf)) k n, \<lparr>bufferView = buf, position = off + int (k + n)\<rparr>)"
  proof -
    fix k n :: nat
    assume kn: "k + n \<le> 512"
    have "nat (off + int k) = nat off + k"
      using assms(1) by simp
    then show "readString n \<lparr>bufferView = buf, position = off + int k\<rparr> =
      Inr (chunk (take 512 (drop (nat off) buf)) k n, \<lparr>bufferView = buf, position = off + int (k + n)\<rparr>)"
      using assms kn readString_ok [of "off + int k" n buf]
      by (simp add: chunk_block add.assoc)
  qed
  have r0: "readString 100 \<lparr>bufferView = buf, position = off\<rparr> =
      Inr (chunk (take 512 (drop (nat off) buf)) 0 100, \<lparr>bufferView = buf, position = off + 100\<rparr>)"
    using r [of 0 100] by simp
  note rs = r0 r [of 100 8, simplified] r [of 108 8, simplified] r [of 116 8, simplified]
    r [of 124 12, simplified] r [of 136 12, simplified] r [of 148 8, simplified]
    r [of 156 1, simplified] r [of 157 100, simplified] r [of 257 6, simplified]
    r [of 263 2, simplified] r [of 265 32, simplified] r [of 297 32, simplified]
    r [of 329 8, simplified] r [of 337 8, simplified] r [of 345 155, simplified]
  show ?thesis
    unfolding makeTarFile_def
    by (simp add: rs ebind_def headerOf_def Let_def)
qed

lemma ucast_of_nat_byte: "n < 256 \<Longrightarrow> (ucast (of_nat n :: byte) :: jschar) = of_nat n"
  by (simp add: unsigned_of_nat take_bit_nat_eq_self)
lemma ucast_of_char: "(ucast (of_char c :: byte) :: jschar) = of_char c"
proof -
  have lt: "(of_char c :: nat) < 256"
    by simp
  have a: "(of_char c :: byte) = of_nat (of_char c)"
    by (simp add: of_char_def)
  have b: "(of_char c :: jschar) = of_nat (of_char c)"
    by (simp add: of_char_def)
  show ?thesis
    using ucast_of_nat_byte [OF lt] a b by simp
qed

lemma length_bytes [simp]: "length (bytes s) = length s"
  by (simp add: bytes_def)

lemma length_field [simp]: "length s \<le> n \<Longrightarrow> length (field s n) = n"
  by (simp add: field_def)

lemma ucast_bytes: "map ucast (bytes s) = js s"
  by (simp add: bytes_def js_def ucast_of_char)

lemma unat_of_char: "unat (of_char c :: byte) = of_char c"
proof -
  have lt: "(of_char c :: nat) < 256"
    by simp
  have a: "(of_char c :: byte) = of_nat (of_char c)"
    by (simp add: of_char_def)
  show ?thesis
    unfolding a using lt by (simp add: unat_of_nat)
qed
lemma of_char_byte_eq_0: "((of_char c :: byte) = 0) = (c = CHR 0x00)"
proof -
  have "((of_char c :: byte) = 0) = (unat (of_char c :: byte) = 0)"
    by (simp add: unat_eq_0)
  also have "\<dots> = ((of_char c :: nat) = 0)"
    by (simp only: unat_of_char)
  also have "\<dots> = (c = CHR 0x00)"
    by (cases c) (auto simp: of_char_def)
  finally show ?thesis .
qed

lemma cstring_field:
  assumes "list_all (\<lambda>c. c \<noteq> CHR 0x00) s"
  shows "cstring (field s n) = js s"
proof -
  have "\<forall>b \<in> set (bytes s). b \<noteq> 0"
    using assms by (auto simp: bytes_def list_all_iff of_char_byte_eq_0)
  then have "takeWhile (\<lambda>b. b \<noteq> 0) (bytes s @ replicate (n - length s) 0) = bytes s"
    by (simp add: takeWhile_append2)
  then show ?thesis
    by (simp add: cstring_def field_def ucast_bytes)
qed

lemma length_tar_header [simp]:
  assumes "length nm \<le> 100" and "length sz \<le> 12" and "length ty \<le> 1" and "length mg \<le> 6"
  shows "length (tar_header nm sz ty mg) = 512"
  using assms by (simp add: tar_header_def)

lemma fields_tar_header:
  assumes "length nm \<le> 100" and "length sz \<le> 12" and "length ty \<le> 1" and "length mg \<le> 6"
  shows "take 100 (tar_header nm sz ty mg) = field nm 100"
    and "take 8 (drop 100 (tar_header nm sz ty mg)) = field ''0000644'' 8"
    and "take 8 (drop 108 (tar_header nm sz ty mg)) = field ''0001750'' 8"
    and "take 8 (drop 116 (tar_header nm sz ty mg)) = field ''0001750'' 8"
    and "take 12 (drop 124 (tar_header nm sz ty mg)) = field sz 12"
    and "take 12 (drop 136 (tar_header nm sz ty mg)) = field ''14371573442'' 12"
    and "take 8 (drop 148 (tar_header nm sz ty mg)) = field ''0000000'' 8"
    and "take 1 (drop 156 (tar_header nm sz ty mg)) = field ty 1"
    and "take 100 (drop 157 (tar_header nm sz ty mg)) = field [] 100"
    and "take 6 (drop 257 (tar_header nm sz ty mg)) = field mg 6"
    and "take 2 (drop 263 (tar_header nm sz ty mg)) = field ''00'' 2"
    and "take 32 (drop 265 (tar_header nm sz ty mg)) = field ''user'' 32"
    and "take 32 (drop 297 (tar_header nm sz ty mg)) = field ''group'' 32"
    and "take 8 (drop 329 (tar_header nm sz ty mg)) = field ''0000000'' 8"
    and "take 8 (drop 337 (tar_header nm sz ty mg)) = field ''0000000'' 8"
    and "take 155 (drop 345 (tar_header nm sz ty mg)) = field [] 155"
  using assms by (simp_all add: tar_header_def)


lemma js_Nil [simp]: "js [] = []"
  by (simp add: js_def)

subsection \<open>Evaluating the decoder on the example archives\<close>

lemma chunks_tar_header:
  assumes "length nm \<le> 100" and "length sz \<le> 12" and "length ty \<le> 1" and "length mg \<le> 6"
    and "list_all (\<lambda>c. c \<noteq> CHR 0x00) nm" and "list_all (\<lambda>c. c \<noteq> CHR 0x00) sz"
    and "list_all (\<lambda>c. c \<noteq> CHR 0x00) ty" and "list_all (\<lambda>c. c \<noteq> CHR 0x00) mg"
  shows "chunk (tar_header nm sz ty mg) 0 100 = js nm"
    and "chunk (tar_header nm sz ty mg) 100 8 = js ''0000644''"
    and "chunk (tar_header nm sz ty mg) 108 8 = js ''0001750''"
    and "chunk (tar_header nm sz ty mg) 116 8 = js ''0001750''"
    and "chunk (tar_header nm sz ty mg) 124 12 = js sz"
    and "chunk (tar_header nm sz ty mg) 136 12 = js ''14371573442''"
    and "chunk (tar_header nm sz ty mg) 148 8 = js ''0000000''"
    and "chunk (tar_header nm sz ty mg) 156 (Suc 0) = js ty"
    and "chunk (tar_header nm sz ty mg) 157 100 = []"
    and "chunk (tar_header nm sz ty mg) 257 6 = js mg"
    and "chunk (tar_header nm sz ty mg) 263 2 = js ''00''"
    and "chunk (tar_header nm sz ty mg) 265 32 = js ''user''"
    and "chunk (tar_header nm sz ty mg) 297 32 = js ''group''"
    and "chunk (tar_header nm sz ty mg) 329 8 = js ''0000000''"
    and "chunk (tar_header nm sz ty mg) 337 8 = js ''0000000''"
    and "chunk (tar_header nm sz ty mg) 345 155 = []"
  using assms fields_tar_header [of nm sz ty mg]
  by (simp_all add: chunk_def cstring_field)

lemma decodeOctal_octal:
  assumes "s \<noteq> []" and "list_all isOctalDigit s"
  shows "decodeOctal s = Num (octalValue s)"
proof -
  have "list_all isDecimalDigit s"
    using assms(2) by (auto simp: list_all_iff dest: octal_is_decimal)
  then have "\<not> Number_isNaN s"
    using assms(1) by (simp add: digits_not_NaN)
  then show ?thesis
    using assms by (simp add: decodeOctal_def parseInt8_octal_digits)
qed

lemma length_padded [simp]: "0 < length s \<Longrightarrow> length s \<le> 512 \<Longrightarrow> length (padded s) = 512"
  by (cases "length s = 512") (simp_all add: padded_def)

lemma take_padded: "n \<le> length s \<Longrightarrow> take n (padded s) = take n (bytes s)"
  by (simp add: padded_def)

lemma length_zero_block [simp]: "length zero_block = 512"
  by (simp add: zero_block_def)

lemma chunk_zero_block [simp]: "chunk zero_block k n = []"
  by (simp add: chunk_def cstring_def zero_block_def)

lemma decodeOctal_empty [simp]: "decodeOctal [] = NaN"
  by (simp add: decodeOctal_def Number_isNaN_def parseInt8_def trimString_def trimStart_def)

lemmas header_simps = headerOf_def chunks_tar_header decodeOctal_octal padTo_def LONG_LINK_FILENAME_def

lemmas entry_simps = untar_body_def readHeader_def processEntry_def isValidName_def js_def ToString_def
  json_def suffix_to_prefix advance_def js_gt_def js_lt_def js_add_def Let_def
  js_slice_def relativeIndex_def ToIntegerOrInfinity_def untarBuffer_def readNextFile_def readBuffer_def
  ToBoolean_def parseInt8_def trimStart_def isStrWhiteSpaceChar_def isOctalDigit_def octalValue_def
  applyHeader_def

lemmas loop_simps = untar_def untar_outer.simps untar_inner.simps nextWindow_def carryOver_def
  new_Tsunami_def initialState_def makeTarFile_block take_padded

subsection \<open>The three-entry archive\<close>

lemma length_archive3 [simp]: "length archive3 = 3584"
  by (simp add: archive3_def)

lemma blocks_archive3:
  "take 512 archive3 = tar_header ''a.json'' ''00000000012'' ''0'' ''ustar''"
  "take 10 (drop 512 archive3) = bytes ''[1,2,3,45]''"
  "take 512 (drop 1024 archive3) = tar_header ''b.txt'' ''00000000005'' ''0'' ''ustar''"
  "take 512 (drop 2048 archive3) = tar_header ''c.json'' ''00000000000'' ''0'' ''ustar''"
  "take 512 (drop 2560 archive3) = zero_block"
  "take 512 (drop 3072 archive3) = zero_block"
  by (simp_all add: archive3_def padded_def)

lemma untar_archive3:
  "untar (new_Tsunami [json] excl CACHE_SIZE) archive3 =
     Some (None, \<lparr>validFileTypes = [json], excludeInvalidFiles = excl, cacheSize = CACHE_SIZE,
       files =
         \<lparr>file_name = JStr (js ''a.json''), file_mode = Num 420, file_buffer = bytes ''[1,2,3,45]''\<rparr> #
         (if excl then [] else [\<lparr>file_name = JStr (js ''b.txt''), file_mode = Num 420, file_buffer = []\<rparr>]) @
         [\<lparr>file_name = JStr (js ''c.json''), file_mode = Num 420, file_buffer = []\<rparr>]\<rparr>)"
  by (simp add: loop_simps blocks_archive3 header_simps entry_simps)

text \<open>
  C3: on the same archive with \<^verbatim>\<open>excludeInvalidFiles = true\<close> and the pattern
  \<^verbatim>\<open>/\.json$/\<close>, \<^verbatim>\<open>untar\<close> does not return the single name \<open>b.txt\<close>: it leaves \<open>b.txt\<close>
  out and returns \<open>a.json\<close> and \<open>c.json\<close>, the first with its 10 bytes of content.
\<close>

theorem untar_exclude_mode:
  "untar (new_Tsunami [json] True CACHE_SIZE) archive3 =
     Some (None, \<lparr>validFileTypes = [json], excludeInvalidFiles = True, cacheSize = CACHE_SIZE,
       files =
         [\<lparr>file_name = JStr (js ''a.json''), file_mode = Num 420, file_buffer = bytes ''[1,2,3,45]''\<rparr>,
          \<lparr>file_name = JStr (js ''c.json''), file_mode = Num 420, file_buffer = []\<rparr>]\<rparr>)"
  using untar_archive3 [of True] by simp

subsection \<open>Extended headers\<close>

lemmas pax_simps = PaxHeader_parse_def PaxHeader_parse_loop.simps paxRecord_def paxFieldMatch_def
  paxFieldValue_def decimalValue_def TextDecoder_decode_def utf8_start_def utf8_lead_def utf16_units_def
  indexOf_def js_slice_def relativeIndex_def isDecimalDigit_def isLineTerminator_def bytes_def js_def Let_def








text \<open>
  C7 (the code at the failing input): the value \<open>0\<close> of a record is not empty and is
  all digits, and \<^verbatim>\<open>PaxHeader.parse\<close> keeps it as text: the number parsed from the text
  is compared with 0 to tell whether the text was a number. A value such as \<open>10\<close> becomes
  a number.
\<close>

theorem pax_zero_kept_as_text:
  "paxFieldValue (js ''0'') = JStr (js ''0'') \<and>
   PaxHeader_parse (bytes ''6 a=0'' @ [0x0A]) = Inr [(js ''a'', JStr (js ''0''))] \<and>
   PaxHeader_parse (bytes ''11 size=10'' @ [0x0A]) = Inr [(js ''size'', JNum (Num 10))]"
  by (simp add: pax_simps)

lemma length_archive_globalpax [simp]: "length archive_globalpax = 2560"
  by (simp add: archive_globalpax_def)











lemma length_archive_badpax [simp]: "length archive_badpax = 3584"
  by (simp add: archive_badpax_def)



lemma bad_example: "paxRecord (bytes ''11 path=abc'') = Inl InvalidPax"
  by (simp add: pax_simps)


subsection \<open>The format token\<close>

lemma length_archive_v7 [simp]: "length archive_v7 = 2048" "length archive_v7_json = 2048"
  by (simp_all add: archive_v7_def archive_v7_json_def)

lemma blocks_archive_v7:
  "take 512 archive_v7 = tar_header ''b.txt'' ''00000000005'' ''0'' ''''"
  "take 512 (drop 1024 archive_v7) = zero_block"
  "take 512 (drop 1536 archive_v7) = zero_block"
  "take 512 archive_v7_json = tar_header ''a.json'' ''00000000012'' ''0'' ''''"
  "take 10 (drop 512 archive_v7_json) = bytes ''[1,2,3,45]''"
  by (simp_all add: archive_v7_def archive_v7_json_def padded_def)

text \<open>
  C9 (as stated, refuted): the header of \<open>b.txt\<close> has no format token at all, no error is
  raised, and the entry is returned.
\<close>

theorem not_ustar_entry_returned:
  "\<not> str_includes (chunk (take 512 archive_v7) 257 6) (js ''ustar'') \<and>
   untar (new_Tsunami [json] False CACHE_SIZE) archive_v7 =
     Some (None, \<lparr>validFileTypes = [json], excludeInvalidFiles = False, cacheSize = CACHE_SIZE,
       files = [\<lparr>file_name = JStr (js ''b.txt''), file_mode = Num 420, file_buffer = []\<rparr>]\<rparr>)"
proof -
  have "chunk (take 512 archive_v7) 257 6 = []"
    by (simp add: blocks_archive_v7 chunks_tar_header)
  moreover have "untar (new_Tsunami [json] False CACHE_SIZE) archive_v7 =
     Some (None, \<lparr>validFileTypes = [json], excludeInvalidFiles = False, cacheSize = CACHE_SIZE,
       files = [\<lparr>file_name = JStr (js ''b.txt''), file_mode = Num 420, file_buffer = []\<rparr>]\<rparr>)"
    by (simp add: loop_simps blocks_archive_v7 header_simps entry_simps)
  ultimately show ?thesis
    by (simp add: js_def)
qed

lemma untar_inner_throw:
  assumes "HEADER_SIZE \<le> int (length buffer) - off" and "untar_body this buffer off st = Throw e st1"
  shows "untar_inner this buffer (Num off) st = Some (Some e, Num off, st1)"
  using assms by (subst untar_inner.simps) simp

lemma untar_outer_throw:
  assumes "fileOffset < int (length tarball)"
    and "untar_inner this (snd (nextWindow this tarball fileOffset buf)) (Num 0) st = Some (Some e, c, st1)"
  shows "untar_outer this tarball fileOffset buf st = Some (Some e, out_files st1)"
proof -
  obtain fo1 b1 where "nextWindow this tarball fileOffset buf = (fo1, b1)"
    by (cases "nextWindow this tarball fileOffset buf")
  with assms show ?thesis
    by (subst untar_outer.simps) simp
qed

lemma readNextFile_content: "readNextFile buf h = Inr f \<Longrightarrow> file_buffer f = buf"
  by (auto simp: readNextFile_def readBuffer_def js_slice_def relativeIndex_def Let_def
      split: jsval.splits if_splits)

lemma processEntry_appends:
  assumes "processEntry this buffer h sz psz off st = Continue c st'"
    and "out_files st' \<noteq> out_files st"
    and "list_ex (\<lambda>t. t (ToString (name h))) (validFileTypes this)"
  shows "\<exists>f. untarBuffer (js_slice buffer off (ToIntegerOrInfinity (js_add (Num off) sz))) h = Inr f \<and>
             out_files st' = out_files st @ [f] \<and> \<not> js_lt (Num (int (length buffer) - off)) psz"
  using assms
  by (auto simp: processEntry_def Let_def split: if_splits sum.splits)

text \<open>
  C9 (amended): the check is made where content is extracted. When \<^verbatim>\<open>untarBuffer\<close> is
  given a header whose format token does not contain \<open>ustar\<close> it raises the error; so
  does the loop body for a long-link entry and for any other entry (not an extended
  header) whose name matches a pattern, once its content is in the window, and the
  decoding ends there; and an entry that matches a pattern is never added to the files
  unless its format token contains \<open>ustar\<close>. (An entry that matches no pattern is listed
  without the check, as the counterexample shows.)
\<close>

theorem ustar_checked_on_extraction:
  "(ustarFormat h = JStr u \<and> \<not> str_includes u (js ''ustar'') \<longrightarrow> untarBuffer buf h = Inl NotUstar) \<and>
   (isValidName (name h) \<and>
    (type h = JStr (js ''L'') \<or>
     (list_ex (\<lambda>t. t (ToString (name h))) (validFileTypes this) \<and>
      type h \<noteq> JStr (js ''g'') \<and> type h \<noteq> JStr (js ''x''))) \<and>
    \<not> js_lt (Num (int (length buffer) - off)) psz \<and>
    ustarFormat h = JStr u \<and> \<not> str_includes u (js ''ustar'') \<longrightarrow>
      processEntry this buffer h sz psz off st = Throw NotUstar st) \<and>
   (HEADER_SIZE \<le> int (length buffer) - off \<and> untar_body this buffer off st = Throw NotUstar st1 \<longrightarrow>
      untar_inner this buffer (Num off) st = Some (Some NotUstar, Num off, st1)) \<and>
   (fileOffset < int (length tarball) \<and>
    untar_inner this (snd (nextWindow this tarball fileOffset buf)) (Num 0) st = Some (Some NotUstar, c, st1) \<longrightarrow>
      untar_outer this tarball fileOffset buf st = Some (Some NotUstar, out_files st1)) \<and>
   (processEntry this buffer h sz psz off st = Continue c' st' \<and> out_files st' \<noteq> out_files st \<and>
    list_ex (\<lambda>t. t (ToString (name h))) (validFileTypes this) \<longrightarrow>
      (\<exists>v. ustarFormat h = JStr v \<and> str_includes v (js ''ustar'')))"
proof (intro conjI impI)
  assume "ustarFormat h = JStr u \<and> \<not> str_includes u (js ''ustar'')"
  then show "untarBuffer buf h = Inl NotUstar"
    by (simp add: untarBuffer_def readNextFile_def)
next
  assume a: "isValidName (name h) \<and>
    (type h = JStr (js ''L'') \<or>
     (list_ex (\<lambda>t. t (ToString (name h))) (validFileTypes this) \<and>
      type h \<noteq> JStr (js ''g'') \<and> type h \<noteq> JStr (js ''x''))) \<and>
    \<not> js_lt (Num (int (length buffer) - off)) psz \<and>
    ustarFormat h = JStr u \<and> \<not> str_includes u (js ''ustar'')"
  then have ub: "\<And>b. untarBuffer b h = Inl NotUstar"
    by (simp add: untarBuffer_def readNextFile_def)
  have L: "type h = JStr (js ''L'') \<Longrightarrow>
      \<not> List.member [JStr (js ''''), JStr (js ''0''), JStr (js ''5'')] (type h) \<and>
      type h \<noteq> JStr (js ''g'') \<and> type h \<noteq> JStr (js ''x'')"
    by (simp add: js_def List.member_iff)
  from a show "processEntry this buffer h sz psz off st = Throw NotUstar st"
    using L by (auto simp: processEntry_def Let_def ub)
next
  assume "HEADER_SIZE \<le> int (length buffer) - off \<and> untar_body this buffer off st = Throw NotUstar st1"
  then show "untar_inner this buffer (Num off) st = Some (Some NotUstar, Num off, st1)"
    by (simp add: untar_inner_throw)
next
  assume "fileOffset < int (length tarball) \<and>
    untar_inner this (snd (nextWindow this tarball fileOffset buf)) (Num 0) st = Some (Some NotUstar, c, st1)"
  then show "untar_outer this tarball fileOffset buf st = Some (Some NotUstar, out_files st1)"
    using untar_outer_throw by blast
next
  assume "processEntry this buffer h sz psz off st = Continue c' st' \<and> out_files st' \<noteq> out_files st \<and>
    list_ex (\<lambda>t. t (ToString (name h))) (validFileTypes this)"
  then obtain f b where "untarBuffer b h = Inr f"
    using processEntry_appends by blast
  then show "\<exists>v. ustarFormat h = JStr v \<and> str_includes v (js ''ustar'')"
    by (auto simp: untarBuffer_def readNextFile_def split: jsval.splits if_splits)
qed

theorem ustar_checked_on_extraction_witness:
  "(let this = new_Tsunami [json] False CACHE_SIZE;
        h = headerOf (tar_header ''a.json'' ''00000000012'' ''0'' '''') [json] None None None;
        st0 = initialState [];
        st1 = st0\<lparr>header := Some h\<rparr>;
        g = headerOf (tar_header ''a.json'' ''00000000012'' ''0'' ''ustar'') [json] None None None;
        a = \<lparr>file_name = JStr (js ''a.json''), file_mode = Num 420, file_buffer = bytes ''[1,2,3,45]''\<rparr>
    in ustarFormat h = JStr [] \<and> \<not> str_includes [] (js ''ustar'') \<and>
       untarBuffer (bytes ''[1,2,3,45]'') h = Inl NotUstar \<and>
       isValidName (name h) \<and> list_ex (\<lambda>t. t (ToString (name h))) (validFileTypes this) \<and>
       type h \<noteq> JStr (js ''g'') \<and> type h \<noteq> JStr (js ''x'') \<and>
       \<not> js_lt (Num (int (length archive_v7_json) - 512)) (Num 512) \<and>
       processEntry this archive_v7_json h (Num 10) (Num 512) 512 st1 = Throw NotUstar st1 \<and>
       HEADER_SIZE \<le> int (length archive_v7_json) - 0 \<and>
       untar_body this archive_v7_json 0 st0 = Throw NotUstar st1 \<and>
       untar_inner this archive_v7_json (Num 0) st0 = Some (Some NotUstar, Num 0, st1) \<and>
       0 < int (length archive_v7_json) \<and>
       untar_inner this (snd (nextWindow this archive_v7_json 0 [])) (Num 0) st0 =
         Some (Some NotUstar, Num 0, st1) \<and>
       untar_outer this archive_v7_json 0 [] st0 = Some (Some NotUstar, []) \<and>
       untar this archive_v7_json = Some (Some NotUstar, this) \<and>
       processEntry this archive3 g (Num 10) (Num 512) 512 (st0\<lparr>header := Some g\<rparr>) =
         Continue (Num 1024) (st0\<lparr>out_files := [a]\<rparr>) \<and>
       out_files (st0\<lparr>out_files := [a]\<rparr>) \<noteq> out_files (st0\<lparr>header := Some g\<rparr>) \<and>
       list_ex (\<lambda>t. t (ToString (name g))) (validFileTypes this) \<and>
       (\<exists>v. ustarFormat g = JStr v \<and> str_includes v (js ''ustar'')))"
proof -
  define this where "this = new_Tsunami [json] False CACHE_SIZE"
  define h where "h = headerOf (tar_header ''a.json'' ''00000000012'' ''0'' '''') [json] None None None"
  define g where "g = headerOf (tar_header ''a.json'' ''00000000012'' ''0'' ''ustar'') [json] None None None"
  define a where "a = \<lparr>file_name = JStr (js ''a.json''), file_mode = Num 420, file_buffer = bytes ''[1,2,3,45]''\<rparr>"
  define st0 where "st0 = initialState []"
  define st1 where "st1 = st0\<lparr>header := Some h\<rparr>"
  have h: "type h = JStr (js ''0'')" "name h = JStr (js ''a.json'')" "ustarFormat h = JStr []"
      "size_f h = JNum (Num 10)" "paddedSize h = JNum (Num 512)"
    unfolding h_def
    by (simp_all add: header_simps js_def isOctalDigit_def octalValue_def json_def suffix_to_prefix)
  have g: "type g = JStr (js ''0'')" "name g = JStr (js ''a.json'')" "ustarFormat g = JStr (js ''ustar'')"
      "mode g = JStr (js ''0000644'')" "prefix_f g = JStr []"
    unfolding g_def
    by (simp_all add: header_simps js_def isOctalDigit_def octalValue_def json_def suffix_to_prefix)
  have st1: "st1 = \<lparr>activeLongLink = None, paxHeader = None, globalPaxHeader = None,
      header = Some h, out_files = []\<rparr>"
    by (simp add: st1_def st0_def initialState_def)
  have nu: "\<not> str_includes [] (js ''ustar'')"
    by (simp add: js_def)
  have p1: "ustarFormat h = JStr [] \<and> \<not> str_includes [] (js ''ustar'')"
    using h nu by simp
  have c1: "untarBuffer (bytes ''[1,2,3,45]'') h = Inl NotUstar"
    using p1 ustar_checked_on_extraction [where h = h and u = "[]" and buf = "bytes ''[1,2,3,45]''"]
    by blast
  have vt: "list_ex (\<lambda>t. t (ToString (name h))) (validFileTypes this)"
      "list_ex (\<lambda>t. t (ToString (name g))) (validFileTypes this)"
    by (simp_all add: h g this_def new_Tsunami_def ToString_def json_def js_def suffix_to_prefix)
  have p2: "isValidName (name h) \<and>
      (type h = JStr (js ''L'') \<or>
       (list_ex (\<lambda>t. t (ToString (name h))) (validFileTypes this) \<and>
        type h \<noteq> JStr (js ''g'') \<and> type h \<noteq> JStr (js ''x''))) \<and>
      \<not> js_lt (Num (int (length archive_v7_json) - 512)) (Num 512) \<and>
      ustarFormat h = JStr [] \<and> \<not> str_includes [] (js ''ustar'')"
    using vt(1) nu by (simp add: h isValidName_def js_def js_lt_def)
  have c2: "processEntry this archive_v7_json h (Num 10) (Num 512) 512 st1 = Throw NotUstar st1"
    using p2 ustar_checked_on_extraction [where this = this and buffer = archive_v7_json and off = 512
        and st = st1 and h = h and psz = "Num 512" and sz = "Num 10" and u = "[]"]
    by blast
  have body: "untar_body this archive_v7_json 0 st0 = Throw NotUstar st1"
    unfolding untar_body_def readHeader_def
    by (simp add: st0_def initialState_def this_def new_Tsunami_def makeTarFile_block blocks_archive_v7
        h_def [symmetric] h c2 [unfolded st1 this_def new_Tsunami_def, simplified] st1)
  have c3: "untar_inner this archive_v7_json (Num 0) st0 = Some (Some NotUstar, Num 0, st1)"
    using body ustar_checked_on_extraction [where this = this and buffer = archive_v7_json and off = 0
        and st = st0 and ?st1.0 = st1]
    by simp
  have win: "nextWindow this archive_v7_json 0 [] = (2048, archive_v7_json)"
    by (simp add: nextWindow_def this_def new_Tsunami_def js_slice_def relativeIndex_def)
  have c4: "untar_outer this archive_v7_json 0 [] st0 = Some (Some NotUstar, out_files st1)"
    using c3 win
      ustar_checked_on_extraction [where this = this and tarball = archive_v7_json and fileOffset = 0
        and buf = "[]" and st = st0 and c = "Num 0" and ?st1.0 = st1]
    by simp
  have c5: "untar this archive_v7_json = Some (Some NotUstar, this)"
    using c4 by (simp add: untar_def this_def new_Tsunami_def st1 st0_def)
  have pe: "processEntry this archive3 g (Num 10) (Num 512) 512 (st0\<lparr>header := Some g\<rparr>) =
      Continue (Num 1024) (st0\<lparr>out_files := [a]\<rparr>)"
    by (simp add: g this_def new_Tsunami_def st0_def initialState_def a_def blocks_archive3 entry_simps)
  have ne: "out_files (st0\<lparr>out_files := [a]\<rparr>) \<noteq> out_files (st0\<lparr>header := Some g\<rparr>)"
    by (simp add: st0_def initialState_def)
  have c6: "\<exists>v. ustarFormat g = JStr v \<and> str_includes v (js ''ustar'')"
    using pe ne vt(2)
      ustar_checked_on_extraction [where this = this and buffer = archive3 and off = 512
        and st = "st0\<lparr>header := Some g\<rparr>" and h = g and psz = "Num 512" and sz = "Num 10"
        and c' = "Num 1024" and st' = "st0\<lparr>out_files := [a]\<rparr>"]
    by blast
  show ?thesis
    unfolding Let_def this_def [symmetric] h_def [symmetric] g_def [symmetric] a_def [symmetric]
      st0_def [symmetric] st1_def [symmetric]
    using p1 c1 p2 c2 body c3 c4 c5 c6 win pe ne vt h by (simp add: st1 js_def)
qed

subsection \<open>Long names\<close>

lemma length_link_archives [simp]:
  "length archive_marker = 3072" "length archive_emptylink = 3072" "length archive_longlink = 3584"
  by (simp_all add: archive_marker_def archive_emptylink_def archive_longlink_def)

lemma blocks_archive_marker:
  "take 512 archive_marker = tar_header ''././@LongLink'' ''00000000007'' ''0'' ''ustar''"
  "take 512 (drop 1024 archive_marker) = tar_header ''a.json'' ''00000000012'' ''0'' ''ustar''"
  "take 10 (drop 1536 archive_marker) = bytes ''[1,2,3,45]''"
  "take 512 (drop 2048 archive_marker) = zero_block"
  "take 512 (drop 2560 archive_marker) = zero_block"
  by (simp_all add: archive_marker_def padded_def)

lemma blocks_archive_emptylink:
  "take 512 archive_emptylink = tar_header ''././@LongLink'' ''00000000001'' ''L'' ''ustar''"
  "take (Suc 0) (drop 512 archive_emptylink) = [0]"
  "take 512 (drop 1024 archive_emptylink) = tar_header ''a.json'' ''00000000012'' ''0'' ''ustar''"
  "take 10 (drop 1536 archive_emptylink) = bytes ''[1,2,3,45]''"
  "take 512 (drop 2048 archive_emptylink) = zero_block"
  "take 512 (drop 2560 archive_emptylink) = zero_block"
  by (simp_all add: archive_emptylink_def padded_def zero_block_def)

lemma blocks_archive_longlink:
  "take 512 archive_longlink = tar_header ''././@LongLink'' ''00000000017'' ''L'' ''ustar''"
  "take 15 (drop 512 archive_longlink) = bytes ''long-name.json'' @ [0]"
  "take 512 (drop 1024 archive_longlink) = tar_header ''short.json'' ''00000000012'' ''0'' ''ustar''"
  "take 10 (drop 1536 archive_longlink) = bytes ''[1,2,3,45]''"
  "take 512 (drop 2048 archive_longlink) = tar_header ''c.json'' ''00000000000'' ''0'' ''ustar''"
  "take 512 (drop 2560 archive_longlink) = zero_block"
  "take 512 (drop 3072 archive_longlink) = zero_block"
  by (simp_all add: archive_longlink_def padded_def)

lemmas decode_simps = TextDecoder_decode_def utf8_start_def utf8_lead_def utf16_units_def bytes_def

lemma untar_archive_marker:
  "untar (new_Tsunami [json] False CACHE_SIZE) archive_marker =
     Some (None, \<lparr>validFileTypes = [json], excludeInvalidFiles = False, cacheSize = CACHE_SIZE,
       files =
         [\<lparr>file_name = JStr (js ''././@LongLink''), file_mode = Num 420, file_buffer = []\<rparr>,
          \<lparr>file_name = JStr (js ''a.json''), file_mode = Num 420, file_buffer = bytes ''[1,2,3,45]''\<rparr>]\<rparr>)"
  by (simp add: loop_simps blocks_archive_marker header_simps entry_simps)

lemma untar_archive_emptylink:
  "untar (new_Tsunami [json] False CACHE_SIZE) archive_emptylink =
     Some (None, \<lparr>validFileTypes = [json], excludeInvalidFiles = False, cacheSize = CACHE_SIZE,
       files =
         [\<lparr>file_name = JStr (js ''a.json''), file_mode = Num 420, file_buffer = bytes ''[1,2,3,45]''\<rparr>]\<rparr>)"
  by (simp add: loop_simps blocks_archive_emptylink header_simps entry_simps decode_simps)

lemma untar_archive_longlink:
  "untar (new_Tsunami [json] False CACHE_SIZE) archive_longlink =
     Some (None, \<lparr>validFileTypes = [json], excludeInvalidFiles = False, cacheSize = CACHE_SIZE,
       files =
         [\<lparr>file_name = JStr (js ''long-name.json''), file_mode = Num 420, file_buffer = bytes ''[1,2,3,45]''\<rparr>,
          \<lparr>file_name = JStr (js ''c.json''), file_mode = Num 420, file_buffer = []\<rparr>]\<rparr>)"
  by (simp add: loop_simps blocks_archive_longlink header_simps entry_simps decode_simps)

text \<open>
  C8 (as stated, refuted): an entry whose name is the long-link marker but whose type is
  that of a regular file sets no pending name: it is listed under the marker's name and
  the next entry keeps its own name. And a long-link entry whose content is the
  terminator alone leaves the empty name pending, which does not replace the name of
  the next header.
\<close>

theorem long_link_marker_name_not_enough:
  "untar (new_Tsunami [json] False CACHE_SIZE) archive_marker =
     Some (None, \<lparr>validFileTypes = [json], excludeInvalidFiles = False, cacheSize = CACHE_SIZE,
       files =
         [\<lparr>file_name = JStr (js ''././@LongLink''), file_mode = Num 420, file_buffer = []\<rparr>,
          \<lparr>file_name = JStr (js ''a.json''), file_mode = Num 420, file_buffer = bytes ''[1,2,3,45]''\<rparr>]\<rparr>) \<and>
   untar (new_Tsunami [json] False CACHE_SIZE) archive_emptylink =
     Some (None, \<lparr>validFileTypes = [json], excludeInvalidFiles = False, cacheSize = CACHE_SIZE,
       files =
         [\<lparr>file_name = JStr (js ''a.json''), file_mode = Num 420, file_buffer = bytes ''[1,2,3,45]''\<rparr>]\<rparr>)"
  using untar_archive_marker untar_archive_emptylink by simp

lemma readHeader_fresh:
  assumes "header st = None" and "0 \<le> off" and "nat off + 512 \<le> length buffer"
  shows "readHeader this buffer off st =
    (let h0 = headerOf (take 512 (drop (nat off) buffer)) (validFileTypes this) (activeLongLink st)
                (globalPaxHeader st) (paxHeader st);
         h1 = (case globalPaxHeader st of None \<Rightarrow> h0 | Some g \<Rightarrow> applyHeader g h0);
         h2 = (case paxHeader st of None \<Rightarrow> h1 | Some p \<Rightarrow> applyHeader p h1)
     in Inr (h2, off + HEADER_SIZE, st\<lparr>activeLongLink := None, paxHeader := None, header := Some h2\<rparr>))"
  using assms by (simp add: readHeader_def makeTarFile_block Let_def)

lemma readHeader_clears:
  assumes "header st = None" and "readHeader this buffer off st = Inr (h, off', st')"
  shows "activeLongLink st' = None \<and> header st' = Some h"
  using assms by (auto simp: readHeader_def Let_def split: sum.splits)

text \<open>
  C8 (amended): when the loop body processes an entry of type \<open>L\<close> with a valid name,
  whose padded content is in the window and whose format token contains \<open>ustar\<close>, the
  content without its last byte, decoded as UTF-8, becomes the pending long-link name. A
  pending name that is not empty is the name \<^verbatim>\<open>makeTarFile\<close> gives the next header it
  reads (before extended headers are applied; with none pending it is the name of the
  header). Reading a header always leaves no name pending, so the name applies to that
  one header only; the marker entry's own header was read before its content.
\<close>

theorem long_link_carry_over:
  "(type h = JStr (js ''L'') \<and> isValidName (name h) \<and>
    \<not> js_lt (Num (int (length buffer) - off)) psz \<and>
    ustarFormat h = JStr u \<and> str_includes u (js ''ustar'') \<longrightarrow>
      processEntry this buffer h sz psz off st =
        Continue (advance off sz psz)
          (st\<lparr>header := None,
              activeLongLink := Some (TextDecoder_decode
                (js_slice (js_slice buffer off (ToIntegerOrInfinity (js_add (Num off) sz))) 0 (- 1)))\<rparr>)) \<and>
   (0 \<le> off \<and> nat off + 512 \<le> length buffer \<and> l \<noteq> [] \<longrightarrow>
      (\<exists>h0. makeTarFile \<lparr>bufferView = buffer, position = off\<rparr> vft (Some l) g p = Inr h0 \<and>
            name h0 = JStr l)) \<and>
   (header st = None \<and> readHeader this buffer off st = Inr (h', off', st') \<longrightarrow>
      activeLongLink st' = None \<and> header st' = Some h') \<and>
   (header st = None \<and> 0 \<le> off \<and> nat off + 512 \<le> length buffer \<and>
    activeLongLink st = Some l \<and> l \<noteq> [] \<and> globalPaxHeader st = None \<and> paxHeader st = None \<and>
    readHeader this buffer off st = Inr (h', off', st') \<longrightarrow>
      name h' = JStr l)"
proof (intro conjI impI)
  assume a: "type h = JStr (js ''L'') \<and> isValidName (name h) \<and>
    \<not> js_lt (Num (int (length buffer) - off)) psz \<and>
    ustarFormat h = JStr u \<and> str_includes u (js ''ustar'')"
  then have ty: "\<not> List.member [JStr (js ''''), JStr (js ''0''), JStr (js ''5'')] (type h)"
      "type h \<noteq> JStr (js ''g'')" "type h \<noteq> JStr (js ''x'')"
    by (simp_all add: js_def List.member_iff)
  have "\<And>b. \<exists>f. untarBuffer b h = Inr f \<and> file_buffer f = b"
    using a by (simp add: untarBuffer_def readNextFile_def readBuffer_def js_slice_def relativeIndex_def Let_def)
  then obtain f where f: "untarBuffer (js_slice buffer off (ToIntegerOrInfinity (js_add (Num off) sz))) h = Inr f"
      "file_buffer f = js_slice buffer off (ToIntegerOrInfinity (js_add (Num off) sz))"
    by blast
  show "processEntry this buffer h sz psz off st =
        Continue (advance off sz psz)
          (st\<lparr>header := None,
              activeLongLink := Some (TextDecoder_decode
                (js_slice (js_slice buffer off (ToIntegerOrInfinity (js_add (Num off) sz))) 0 (- 1)))\<rparr>)"
    using a ty f by (simp add: processEntry_def Let_def)
next
  assume "0 \<le> off \<and> nat off + 512 \<le> length buffer \<and> l \<noteq> []"
  then show "\<exists>h0. makeTarFile \<lparr>bufferView = buffer, position = off\<rparr> vft (Some l) g p = Inr h0 \<and>
            name h0 = JStr l"
    by (simp add: makeTarFile_block headerOf_def Let_def)
next
  assume "header st = None \<and> readHeader this buffer off st = Inr (h', off', st')"
  then show "activeLongLink st' = None" "header st' = Some h'"
    using readHeader_clears by blast+
next
  assume "header st = None \<and> 0 \<le> off \<and> nat off + 512 \<le> length buffer \<and>
    activeLongLink st = Some l \<and> l \<noteq> [] \<and> globalPaxHeader st = None \<and> paxHeader st = None \<and>
    readHeader this buffer off st = Inr (h', off', st')"
  then show "name h' = JStr l"
    by (auto simp: readHeader_fresh headerOf_def Let_def)
qed

theorem long_link_carry_over_witness:
  "(let h = headerOf (take 512 archive_longlink) [json] None None None;
        st = (initialState [])\<lparr>header := Some h\<rparr>
    in (type h = JStr (js ''L'') \<and> isValidName (name h) \<and>
        \<not> js_lt (Num (int (length archive_longlink) - 512)) (Num 512) \<and>
        ustarFormat h = JStr (js ''ustar'') \<and> str_includes (js ''ustar'') (js ''ustar'')) \<and>
       processEntry (new_Tsunami [json] False CACHE_SIZE) archive_longlink h (Num 15) (Num 512) 512 st =
         Continue (Num 1024) (st\<lparr>header := None, activeLongLink := Some (js ''long-name.json'')\<rparr>)) \<and>
   (let st = (initialState [])\<lparr>activeLongLink := Some (js ''long-name.json'')\<rparr>
    in (\<exists>h0. makeTarFile \<lparr>bufferView = archive_longlink, position = 1024\<rparr> [json]
                (Some (js ''long-name.json'')) None None = Inr h0 \<and>
              name h0 = JStr (js ''long-name.json'')) \<and>
       (\<exists>h' st'. readHeader (new_Tsunami [json] False CACHE_SIZE) archive_longlink 1024 st =
                    Inr (h', 1536, st') \<and>
                  name h' = JStr (js ''long-name.json'') \<and> activeLongLink st' = None \<and>
                  header st' = Some h'))"
proof -
  define h where "h = headerOf (take 512 archive_longlink) [json] None None None"
  define st where "st = (initialState [])\<lparr>header := Some h\<rparr>"
  define st2 where "st2 = (initialState [])\<lparr>activeLongLink := Some (js ''long-name.json'')\<rparr>"
  define this where "this = new_Tsunami [json] False CACHE_SIZE"
  have hyp1: "type h = JStr (js ''L'') \<and> isValidName (name h) \<and>
        \<not> js_lt (Num (int (length archive_longlink) - 512)) (Num 512) \<and>
        ustarFormat h = JStr (js ''ustar'') \<and> str_includes (js ''ustar'') (js ''ustar'')"
    by (simp add: h_def blocks_archive_longlink header_simps isValidName_def js_def js_lt_def)
  have dec: "TextDecoder_decode
      (js_slice (js_slice archive_longlink 512 (ToIntegerOrInfinity (js_add (Num 512) (Num 15)))) 0 (- 1)) =
      js ''long-name.json''"
    by (simp add: js_slice_def relativeIndex_def ToIntegerOrInfinity_def js_add_def
        blocks_archive_longlink decode_simps js_def)
  obtain h2 off2 st2' where rd: "readHeader this archive_longlink 1024 st2 = Inr (h2, off2, st2')"
    by (simp add: readHeader_fresh st2_def initialState_def Let_def)
  have off2: "off2 = 1536"
    using rd by (simp add: readHeader_fresh st2_def initialState_def Let_def)
  note inst1 = long_link_carry_over [where h = h and buffer = archive_longlink and psz = "Num 512"
      and sz = "Num 15" and off = 512 and u = "js ''ustar''" and this = this and st = st
      and l = "js ''long-name.json''"]
  note inst2 = long_link_carry_over [where buffer = archive_longlink and off = 1024
      and l = "js ''long-name.json''" and vft = "[json]" and g = None and p = None
      and st = st2 and this = this and h' = h2 and off' = off2 and st' = st2']
  have c1: "processEntry this archive_longlink h (Num 15) (Num 512) 512 st =
         Continue (Num 1024) (st\<lparr>header := None, activeLongLink := Some (js ''long-name.json'')\<rparr>)"
    using inst1 hyp1 dec by (simp add: advance_def js_add_def js_gt_def js_lt_def)
  have c2: "\<exists>h0. makeTarFile \<lparr>bufferView = archive_longlink, position = 1024\<rparr> [json]
                (Some (js ''long-name.json'')) None None = Inr h0 \<and>
              name h0 = JStr (js ''long-name.json'')"
    using inst2 by (simp add: js_def)
  have c3: "name h2 = JStr (js ''long-name.json'') \<and> activeLongLink st2' = None \<and> header st2' = Some h2"
    using inst2 rd by (simp add: st2_def initialState_def js_def)
  show ?thesis
    using hyp1 c1 c2 c3 rd off2
    unfolding h_def [symmetric] st_def [symmetric] st2_def [symmetric] this_def [symmetric] Let_def
    by blast
qed

subsection \<open>Sizes\<close>

lemma length_archive_nosize [simp]: "length archive_nosize = 1536"
  by (simp add: archive_nosize_def)

lemma blocks_archive_nosize:
  "take 512 archive_nosize = tar_header ''a.json'' '''' ''0'' ''ustar''"
  "take 512 (drop 512 archive_nosize) = zero_block"
  "take 512 (drop 1024 archive_nosize) = zero_block"
  by (simp_all add: archive_nosize_def)

lemma header_archive_nosize:
  "readHeader (new_Tsunami [json] False CACHE_SIZE) archive_nosize 0 (initialState []) =
     Inr (headerOf (take 512 archive_nosize) [json] None None None, 512,
          (initialState [])\<lparr>header := Some (headerOf (take 512 archive_nosize) [json] None None None)\<rparr>)"
  by (simp add: readHeader_fresh initialState_def new_Tsunami_def Let_def)

lemma untar_archive_nosize:
  "untar (new_Tsunami [json] False CACHE_SIZE) archive_nosize =
     Some (None, \<lparr>validFileTypes = [json], excludeInvalidFiles = False, cacheSize = CACHE_SIZE,
       files = [\<lparr>file_name = JStr (js ''a.json''), file_mode = Num 420, file_buffer = []\<rparr>]\<rparr>)"
  by (simp add: loop_simps blocks_archive_nosize header_simps entry_simps decodeOctal_empty)

lemma size_archive_nosize:
  "size_f (headerOf (take 512 archive_nosize) [json] None None None) = JNum NaN"
  "paddedSize (headerOf (take 512 archive_nosize) [json] None None None) = JNum NaN"
  "name (headerOf (take 512 archive_nosize) [json] None None None) = JStr (js ''a.json'')"
  by (simp_all add: blocks_archive_nosize header_simps decodeOctal_empty js_def Let_def)

lemma header_b_txt:
  "readHeader (new_Tsunami [json] False CACHE_SIZE) archive3 1024 (initialState []) =
     Inr (headerOf (take 512 (drop 1024 archive3)) [json] None None None, 1536,
          (initialState [])\<lparr>header := Some (headerOf (take 512 (drop 1024 archive3)) [json] None None None)\<rparr>)"
  "name (headerOf (take 512 (drop 1024 archive3)) [json] None None None) = JStr (js ''b.txt'')"
  "size_f (headerOf (take 512 (drop 1024 archive3)) [json] None None None) = JNum (Num 5)"
  "paddedSize (headerOf (take 512 (drop 1024 archive3)) [json] None None None) = JNum (Num 512)"
  by (simp_all add: readHeader_fresh initialState_def new_Tsunami_def blocks_archive3 header_simps js_def
      octalValue_def isOctalDigit_def Let_def)

lemma length_archive_negsize [simp]: "length archive_negsize = 1536"
  by (simp add: archive_negsize_def)

lemma blocks_archive_negsize:
  "take 512 archive_negsize = tar_header ''a.json'' ''-1750'' ''0'' ''ustar''"
  "take 512 (drop 512 archive_negsize) = zero_block"
  "take 512 (drop 1024 archive_negsize) = zero_block"
  "take 536 (drop 512 archive_negsize) = replicate 536 0"
  by (simp_all add: archive_negsize_def zero_block_def replicate_add [symmetric])

lemma decodeOctal_negative: "decodeOctal (js ''-1750'') = Num (- 1000)"
  by (simp add: decodeOctal_def Number_isNaN_def trimString_def trimStart_def isStrDecimalLiteral_def
      isStrUnsignedDecimalLiteral_def isStrWhiteSpaceChar_def isDecimalDigit_def isOctalDigit_def
      isNonDecimalIntegerLiteral_def isExponentPartOpt_def js_def parseInt8_def octalValue_def)

lemma size_archive_negsize:
  "size_f (headerOf (take 512 archive_negsize) [json] None None None) = JNum (Num (- 1000))"
  "paddedSize (headerOf (take 512 archive_negsize) [json] None None None) = JNum (Num (- 512))"
  "name (headerOf (take 512 archive_negsize) [json] None None None) = JStr (js ''a.json'')"
  using decodeOctal_negative
  by (simp_all add: blocks_archive_negsize headerOf_def chunks_tar_header padTo_def js_def Let_def)

lemma header_archive_negsize:
  "readHeader (new_Tsunami [json] False CACHE_SIZE) archive_negsize 0 (initialState []) =
     Inr (headerOf (take 512 archive_negsize) [json] None None None, 512,
          (initialState [])\<lparr>header := Some (headerOf (take 512 archive_negsize) [json] None None None)\<rparr>)"
  by (simp add: readHeader_fresh initialState_def new_Tsunami_def Let_def)

lemma untar_archive_negsize:
  "untar (new_Tsunami [json] False CACHE_SIZE) archive_negsize =
     Some (None, \<lparr>validFileTypes = [json], excludeInvalidFiles = False, cacheSize = CACHE_SIZE,
       files = [\<lparr>file_name = JStr (js ''a.json''), file_mode = Num 420, file_buffer = replicate 536 0\<rparr>]\<rparr>)"
  using decodeOctal_negative
  by (simp add: loop_simps blocks_archive_negsize header_simps entry_simps decodeOctal_empty)

text \<open>
  C5 (as stated, refuted): the entry \<open>b.txt\<close> of the three-entry archive declares 5 bytes
  and is returned with empty content, since it matches no pattern; an entry whose size
  field is empty has the size and the padded size \<open>NaN\<close>, which is no multiple of 512,
  and is returned all the same; and an entry whose size field reads \<^verbatim>\<open>-1750\<close> has the
  size -1000 and the padded size -512, and is returned with 536 bytes of content.
\<close>

theorem content_length_not_always_size:
  "(let h = headerOf (take 512 (drop 1024 archive3)) [json] None None None
    in readHeader (new_Tsunami [json] False CACHE_SIZE) archive3 1024 (initialState []) =
         Inr (h, 1536, (initialState [])\<lparr>header := Some h\<rparr>) \<and>
       name h = JStr (js ''b.txt'') \<and> size_f h = JNum (Num 5) \<and> paddedSize h = JNum (Num 512)) \<and>
   untar (new_Tsunami [json] False CACHE_SIZE) archive3 =
     Some (None, \<lparr>validFileTypes = [json], excludeInvalidFiles = False, cacheSize = CACHE_SIZE,
       files =
         [\<lparr>file_name = JStr (js ''a.json''), file_mode = Num 420, file_buffer = bytes ''[1,2,3,45]''\<rparr>,
          \<lparr>file_name = JStr (js ''b.txt''), file_mode = Num 420, file_buffer = []\<rparr>,
          \<lparr>file_name = JStr (js ''c.json''), file_mode = Num 420, file_buffer = []\<rparr>]\<rparr>) \<and>
   (let h = headerOf (take 512 archive_nosize) [json] None None None
    in readHeader (new_Tsunami [json] False CACHE_SIZE) archive_nosize 0 (initialState []) =
         Inr (h, 512, (initialState [])\<lparr>header := Some h\<rparr>) \<and>
       name h = JStr (js ''a.json'') \<and> size_f h = JNum NaN \<and> paddedSize h = JNum NaN) \<and>
   untar (new_Tsunami [json] False CACHE_SIZE) archive_nosize =
     Some (None, \<lparr>validFileTypes = [json], excludeInvalidFiles = False, cacheSize = CACHE_SIZE,
       files = [\<lparr>file_name = JStr (js ''a.json''), file_mode = Num 420, file_buffer = []\<rparr>]\<rparr>) \<and>
   (let h = headerOf (take 512 archive_negsize) [json] None None None
    in readHeader (new_Tsunami [json] False CACHE_SIZE) archive_negsize 0 (initialState []) =
         Inr (h, 512, (initialState [])\<lparr>header := Some h\<rparr>) \<and>
       name h = JStr (js ''a.json'') \<and> size_f h = JNum (Num (- 1000)) \<and>
       paddedSize h = JNum (Num (- 512))) \<and>
   untar (new_Tsunami [json] False CACHE_SIZE) archive_negsize =
     Some (None, \<lparr>validFileTypes = [json], excludeInvalidFiles = False, cacheSize = CACHE_SIZE,
       files = [\<lparr>file_name = JStr (js ''a.json''), file_mode = Num 420,
                 file_buffer = replicate 536 0\<rparr>]\<rparr>)"
  using header_b_txt header_archive_nosize size_archive_nosize untar_archive_nosize
    untar_archive3 [of False] header_archive_negsize size_archive_negsize untar_archive_negsize
  by (simp add: Let_def)

lemma makeTarFile_sizes:
  assumes "makeTarFile stream vft ll g p = Inr h"
  shows "\<exists>sz. size_f h = JNum sz \<and> paddedSize h = JNum (padTo sz)"
  using assms
  by (auto simp: makeTarFile_def ebind_def Let_def split: sum.splits if_splits prod.splits)

lemma padTo_ceiling: "padTo (Num n) = Num (\<lceil>real_of_int n / 512\<rceil> * 512)"
proof -
  have "\<lfloor>real_of_int (- n) / real_of_int 512\<rfloor> = (- n) div 512"
    by (rule floor_divide_of_int_eq)
  then have "\<lceil>real_of_int n / 512\<rceil> = - ((- n) div 512)"
    by (simp add: ceiling_def)
  then show ?thesis
    by (simp add: padTo_def)
qed

lemma padTo_bounds: "\<exists>p k. padTo (Num n) = Num p \<and> p = 512 * k \<and> n \<le> p \<and> p - n < 512"
proof -
  define q where "q = (- n) div 512"
  have "- n = 512 * q + (- n) mod 512" "0 \<le> (- n) mod 512" "(- n) mod 512 < 512"
    by (simp_all add: q_def)
  then have "n \<le> - q * 512" "- q * 512 - n < 512"
    by linarith+
  then show ?thesis
    by (simp add: padTo_def q_def)
qed

lemma js_slice_length:
  assumes "0 \<le> off" and "0 \<le> n" and "off + n \<le> int (length xs)"
  shows "int (length (js_slice xs off (off + n))) = n"
proof -
  have "nat (off + n) \<le> length xs" "nat off \<le> nat (off + n)" "nat (off + n) - nat off = nat n"
    using assms by linarith+
  then have "length (js_slice xs off (off + n)) = min (length xs - nat off) (nat n)"
    using assms by (simp add: js_slice_def relativeIndex_def Let_def min_def)
  then show ?thesis
    using assms by linarith
qed

lemma readHeader_sizes:
  assumes "header st = None" and "globalPaxHeader st = None" and "paxHeader st = None"
    and "readHeader this buffer off st = Inr (h, off1, st1)"
  shows "\<exists>sz. size_f h = JNum sz \<and> paddedSize h = JNum (padTo sz)"
  using assms makeTarFile_sizes
  by (auto simp: readHeader_def Let_def split: sum.splits)

lemma processEntry_placeholder:
  assumes "processEntry this buffer h sz psz off st = Continue c st'"
    and "out_files st' \<noteq> out_files st"
    and "\<not> list_ex (\<lambda>t. t (ToString (name h))) (validFileTypes this)"
  shows "out_files st' = out_files st @
           [\<lparr>file_name = name h, file_mode = parseInt8 (ToString (mode h)), file_buffer = []\<rparr>]"
  using assms
  by (auto simp: processEntry_def Let_def split: if_splits sum.splits)

text \<open>
  C5 (amended): the header that \<^verbatim>\<open>makeTarFile\<close> returns, and so every header read while
  no extended header is in force, has a number as its size and
  \<open>Math.ceil(size / 512) * 512\<close> as its padded size; this is \<open>NaN\<close> when the size is, and
  otherwise the least multiple of 512 that is not below the size, less than 512 above
  it (also when the size is negative). When the loop body adds an entry that matches a
  pattern, at an offset that is not negative, with a size that is not negative and the
  padded size computed from it, the content of the entry has exactly the size as its
  length. An entry that it adds and that matches no pattern has empty content, whatever
  its size.
\<close>

theorem padded_size_and_content_length:
  "(makeTarFile stream vft ll g p = Inr h \<longrightarrow>
      (\<exists>sz. size_f h = JNum sz \<and> paddedSize h = JNum (padTo sz))) \<and>
   (header st0 = None \<and> globalPaxHeader st0 = None \<and> paxHeader st0 = None \<and>
    readHeader this buffer off0 st0 = Inr (h0, off1, st1) \<longrightarrow>
      (\<exists>sz. size_f h0 = JNum sz \<and> paddedSize h0 = JNum (padTo sz))) \<and>
   padTo NaN = NaN \<and>
   padTo (Num n) = Num (\<lceil>real_of_int n / 512\<rceil> * 512) \<and>
   (\<exists>q k. padTo (Num n) = Num q \<and> q = 512 * k \<and> n \<le> q \<and> q - n < 512) \<and>
   (processEntry this buffer h' (Num m) (padTo (Num m)) off st = Continue c st' \<and>
    out_files st' \<noteq> out_files st \<and>
    list_ex (\<lambda>t. t (ToString (name h'))) (validFileTypes this) \<and>
    0 \<le> off \<and> 0 \<le> m \<longrightarrow>
      (\<exists>f. out_files st' = out_files st @ [f] \<and> int (length (file_buffer f)) = m)) \<and>
   (processEntry this buffer h' sz' psz' off st = Continue c st' \<and>
    out_files st' \<noteq> out_files st \<and>
    \<not> list_ex (\<lambda>t. t (ToString (name h'))) (validFileTypes this) \<longrightarrow>
      (\<exists>f. out_files st' = out_files st @ [f] \<and> file_buffer f = []))"
proof (intro conjI impI)
  assume "makeTarFile stream vft ll g p = Inr h"
  then show "\<exists>sz. size_f h = JNum sz \<and> paddedSize h = JNum (padTo sz)"
    by (rule makeTarFile_sizes)
next
  assume "header st0 = None \<and> globalPaxHeader st0 = None \<and> paxHeader st0 = None \<and>
    readHeader this buffer off0 st0 = Inr (h0, off1, st1)"
  then show "\<exists>sz. size_f h0 = JNum sz \<and> paddedSize h0 = JNum (padTo sz)"
    using readHeader_sizes by blast
next
  show "padTo NaN = NaN"
    by (simp add: padTo_def)
next
  show "padTo (Num n) = Num (\<lceil>real_of_int n / 512\<rceil> * 512)"
    by (rule padTo_ceiling)
next
  show "\<exists>q k. padTo (Num n) = Num q \<and> q = 512 * k \<and> n \<le> q \<and> q - n < 512"
    by (rule padTo_bounds)
next
  assume a: "processEntry this buffer h' (Num m) (padTo (Num m)) off st = Continue c st' \<and>
    out_files st' \<noteq> out_files st \<and>
    list_ex (\<lambda>t. t (ToString (name h'))) (validFileTypes this) \<and>
    0 \<le> off \<and> 0 \<le> m"
  obtain r k where r: "padTo (Num m) = Num r" "r = 512 * k" "m \<le> r" "r - m < 512"
    using padTo_bounds [of m] by blast
  obtain f where f:
      "untarBuffer (js_slice buffer off (ToIntegerOrInfinity (js_add (Num off) (Num m)))) h' = Inr f"
      "out_files st' = out_files st @ [f]" "\<not> js_lt (Num (int (length buffer) - off)) (Num r)"
    using processEntry_appends [of this buffer h' "Num m" "Num r" off st c st'] a r(1) by auto
  have "file_buffer f = js_slice buffer off (off + m)"
    using f(1) readNextFile_content [of _ h' f]
    by (simp add: untarBuffer_def js_add_def ToIntegerOrInfinity_def)
  moreover have "off + m \<le> int (length buffer)"
    using f(3) r(3) by (simp add: js_lt_def)
  ultimately have "int (length (file_buffer f)) = m"
    using a js_slice_length [of off m buffer] by simp
  then show "\<exists>f. out_files st' = out_files st @ [f] \<and> int (length (file_buffer f)) = m"
    using f(2) by blast
next
  assume "processEntry this buffer h' sz' psz' off st = Continue c st' \<and>
    out_files st' \<noteq> out_files st \<and>
    \<not> list_ex (\<lambda>t. t (ToString (name h'))) (validFileTypes this)"
  then show "\<exists>f. out_files st' = out_files st @ [f] \<and> file_buffer f = []"
    using processEntry_placeholder [of this buffer h' sz' psz' off st c st'] by simp
qed

theorem padded_size_and_content_length_witness:
  "(\<exists>h. makeTarFile \<lparr>bufferView = archive3, position = 0\<rparr> [json] None None None = Inr h \<and>
        size_f h = JNum (Num 10) \<and> paddedSize h = JNum (Num 512)) \<and>
   padTo (Num 10) = Num 512 \<and>
   (let h = headerOf (take 512 archive3) [json] None None None;
        st = (initialState [])\<lparr>header := Some h\<rparr>;
        a = \<lparr>file_name = JStr (js ''a.json''), file_mode = Num 420, file_buffer = bytes ''[1,2,3,45]''\<rparr>;
        st' = st\<lparr>header := None, out_files := [a]\<rparr>
    in header (initialState []) = None \<and> globalPaxHeader (initialState []) = None \<and>
       paxHeader (initialState []) = None \<and>
       readHeader (new_Tsunami [json] False CACHE_SIZE) archive3 0 (initialState []) = Inr (h, 512, st) \<and>
       processEntry (new_Tsunami [json] False CACHE_SIZE) archive3 h (Num 10) (padTo (Num 10)) 512 st =
         Continue (Num 1024) st' \<and>
       out_files st' \<noteq> out_files st \<and>
       list_ex (\<lambda>t. t (ToString (name h))) (validFileTypes (new_Tsunami [json] False CACHE_SIZE)) \<and>
       (\<exists>f. out_files st' = out_files st @ [f] \<and> int (length (file_buffer f)) = 10)) \<and>
   (let h = headerOf (take 512 (drop 1024 archive3)) [json] None None None;
        st = (initialState [])\<lparr>header := Some h\<rparr>;
        b = \<lparr>file_name = JStr (js ''b.txt''), file_mode = Num 420, file_buffer = []\<rparr>;
        st' = st\<lparr>header := None, out_files := [b]\<rparr>
    in processEntry (new_Tsunami [json] False CACHE_SIZE) archive3 h (Num 5) (Num 512) 1536 st =
         Continue (Num 2048) st' \<and>
       out_files st' \<noteq> out_files st \<and>
       \<not> list_ex (\<lambda>t. t (ToString (name h))) (validFileTypes (new_Tsunami [json] False CACHE_SIZE)) \<and>
       (\<exists>f. out_files st' = out_files st @ [f] \<and> file_buffer f = []))"
proof -
  define h where "h = headerOf (take 512 archive3) [json] None None None"
  define st where "st = (initialState [])\<lparr>header := Some h\<rparr>"
  define a where "a = \<lparr>file_name = JStr (js ''a.json''), file_mode = Num 420, file_buffer = bytes ''[1,2,3,45]''\<rparr>"
  define st' where "st' = st\<lparr>header := None, out_files := [a]\<rparr>"
  define this where "this = new_Tsunami [json] False CACHE_SIZE"
  define h2 where "h2 = headerOf (take 512 (drop 1024 archive3)) [json] None None None"
  define st2 where "st2 = (initialState [])\<lparr>header := Some h2\<rparr>"
  define b where "b = \<lparr>file_name = JStr (js ''b.txt''), file_mode = Num 420, file_buffer = []\<rparr>"
  define st2' where "st2' = st2\<lparr>header := None, out_files := [b]\<rparr>"
  have mk: "makeTarFile \<lparr>bufferView = archive3, position = 0\<rparr> [json] None None None = Inr h"
    by (simp add: makeTarFile_block h_def)
  have rh: "readHeader this archive3 0 (initialState []) = Inr (h, 512, st)"
    by (simp add: readHeader_fresh initialState_def this_def new_Tsunami_def h_def st_def Let_def)
  have st0: "header (initialState []) = None \<and> globalPaxHeader (initialState []) = None \<and>
       paxHeader (initialState []) = None"
    by (simp add: initialState_def)
  have pad: "padTo (Num 10) = Num 512"
    by (simp add: padTo_def)
  have run: "processEntry this archive3 h (Num 10) (padTo (Num 10)) 512 st = Continue (Num 1024) st'"
    by (simp add: this_def h_def st_def st'_def a_def new_Tsunami_def initialState_def
        blocks_archive3 header_simps entry_simps)
  have hyps: "out_files st' \<noteq> out_files st" "list_ex (\<lambda>t. t (ToString (name h))) (validFileTypes this)"
    by (simp_all add: this_def h_def st_def st'_def a_def new_Tsunami_def initialState_def
        blocks_archive3 header_simps entry_simps)
  have run2: "processEntry this archive3 h2 (Num 5) (Num 512) 1536 st2 = Continue (Num 2048) st2'"
    by (simp add: this_def h2_def st2_def st2'_def b_def new_Tsunami_def initialState_def
        blocks_archive3 header_simps entry_simps)
  have hyps2: "out_files st2' \<noteq> out_files st2"
      "\<not> list_ex (\<lambda>t. t (ToString (name h2))) (validFileTypes this)"
    by (simp_all add: this_def h2_def st2_def st2'_def b_def new_Tsunami_def initialState_def
        blocks_archive3 header_simps entry_simps)
  note inst = padded_size_and_content_length [where stream = "\<lparr>bufferView = archive3, position = 0\<rparr>"
      and vft = "[json]" and ll = None and g = None and p = None and h = h and n = 10
      and this = this and buffer = archive3 and h' = h and m = 10 and off = 512
      and st = st and c = "Num 1024" and st' = st' and ?st0.0 = "initialState []" and ?off0.0 = 0
      and ?h0.0 = h and ?off1.0 = 512 and ?st1.0 = st]
  note inst2 = padded_size_and_content_length [where this = this and buffer = archive3 and h' = h2
      and sz' = "Num 5" and psz' = "Num 512" and off = 1536 and st = st2 and c = "Num 2048" and st' = st2']
  have c0: "\<exists>sz. size_f h = JNum sz \<and> paddedSize h = JNum (padTo sz)"
    using inst rh st0 by blast
  have "size_f h = JNum (Num 10)"
    by (simp add: h_def blocks_archive3 header_simps js_def octalValue_def isOctalDigit_def Let_def)
  then have c1: "size_f h = JNum (Num 10) \<and> paddedSize h = JNum (Num 512)"
    using c0 pad by auto
  have c2: "\<exists>f. out_files st' = out_files st @ [f] \<and> int (length (file_buffer f)) = 10"
    using inst run hyps by simp
  have c3: "\<exists>f. out_files st2' = out_files st2 @ [f] \<and> file_buffer f = []"
    using inst2 run2 hyps2 by blast
  show ?thesis
    using mk c1 pad rh st0 run hyps c2 run2 hyps2 c3
    unfolding h_def [symmetric] st_def [symmetric] a_def [symmetric] st'_def [symmetric]
      this_def [symmetric] h2_def [symmetric] st2_def [symmetric] b_def [symmetric]
      st2'_def [symmetric] Let_def
    by blast
qed

subsection \<open>The files of earlier calls\<close>

lemma prepend_files_simps [simp]:
  "activeLongLink (prepend_files pre st) = activeLongLink st"
  "paxHeader (prepend_files pre st) = paxHeader st"
  "globalPaxHeader (prepend_files pre st) = globalPaxHeader st"
  "header (prepend_files pre st) = header st"
  "out_files (prepend_files pre st) = pre @ out_files st"
  by (simp_all add: prepend_files_def)







lemma nextWindow_files [simp]: "nextWindow (t\<lparr>files := x\<rparr>) f fo buf = nextWindow t f fo buf"
  by (simp add: nextWindow_def Let_def)








subsection \<open>The size of the window\<close>

























lemma readHeader_cacheSize [simp]:
  "readHeader (this\<lparr>cacheSize := c\<rparr>) buffer off st = readHeader this buffer off st"
  by (simp add: readHeader_def split: option.splits)

lemma processEntry_cacheSize [simp]:
  "processEntry (this\<lparr>cacheSize := c\<rparr>) buffer h sz psz off st = processEntry this buffer h sz psz off st"
  by (simp add: processEntry_def Let_def)

lemma untar_body_cacheSize [simp]:
  "untar_body (this\<lparr>cacheSize := c\<rparr>) buffer off st = untar_body this buffer off st"
  by (simp add: untar_body_def split: sum.splits prod.splits jsval.splits)

lemma decodeWhole_cacheSize:
  "decodeWhole (this\<lparr>cacheSize := c\<rparr>) tarball pos st = decodeWhole this tarball pos st"
proof (induction this tarball pos st rule: decodeWhole.induct)
  case (1 this tarball pos st)
  note L = decodeWhole.simps [of "this\<lparr>cacheSize := c\<rparr>" tarball pos st]
  note R = decodeWhole.simps [of this tarball pos st]
  show ?case
  proof (cases "pos < 0 \<or> int (length tarball) - pos < 512")
    case True
    then show ?thesis
      by (subst L, subst R) auto
  next
    case False
    show ?thesis
    proof (cases "readHeader this tarball pos st")
      case (Inl e)
      then show ?thesis
        by (subst L, subst R) simp
    next
      case (Inr x)
      obtain h pos1 st1 where x: "x = (h, pos1, st1)"
        by (cases x)
      show ?thesis
      proof (cases "sizesOk h")
        case ok: True
        show ?thesis
        proof (cases "untar_body this tarball pos st")
          case (Continue cc st')
          show ?thesis
          proof (cases cc)
            case NaN
            then show ?thesis
              using False Inr x ok Continue
              by (subst L, subst R) simp
          next
            case (Num pos')
            show ?thesis
            proof (cases "pos < pos'")
              case lt: True
              have "decodeWhole (this\<lparr>cacheSize := c\<rparr>) tarball pos' st' = decodeWhole this tarball pos' st'"
              proof (rule "1.IH" [OF _ _ _ refl refl _ Continue Num lt])
                show "\<not> pos < 0" "\<not> int (length tarball) - pos < 512"
                  using False by simp_all
                show "readHeader this tarball pos st = Inr (h, pos1, st1)"
                  using Inr x by simp
                show "\<not> \<not> sizesOk h"
                  using ok by simp
              qed
              then show ?thesis
                using False Inr x ok Continue Num lt
                by (subst L, subst R) simp
            next
              case nlt: False
              then show ?thesis
                using False Inr x ok Continue Num
                by (subst L, subst R) simp
            qed
          qed
        next
          case (Break cc st')
          then show ?thesis
            using False Inr x ok
            by (subst L, subst R) simp
        next
          case (Throw e st')
          then show ?thesis
            using False Inr x ok
            by (subst L, subst R) simp
        qed
      next
        case nok: False
        then show ?thesis
          using False Inr x
          by (subst L, subst R) simp
      qed
    qed
  qed
qed



lemma wellFormed_cacheSize: "wellFormed (this\<lparr>cacheSize := c\<rparr>) tarball = wellFormed this tarball"
  by (simp add: wellFormed_def decodeWhole_cacheSize)




subsection \<open>Entries that match no pattern\<close>





end
